theory Spec2Isabelle
  imports Main "HOL-Library.AList"
begin

section \<open>Values, errors and property descriptors\<close>

text \<open>
  The development embeds \<^verbatim>\<open>src/neomodel/core.py\<close>. Python dictionaries are association
  lists (the iteration order of a dictionary is the order of the list), exceptions are
  values of the type \<open>error\<close>, and every method that can raise returns a sum with the error
  on the left.
\<close>

type_synonym handle = nat

datatype pyval =
    PyNone
  | PyBool bool
  | PyInt int
  | PyStr string
  | PyMethod string
  | PyRelManager string

type_synonym props = "(string \<times> pyval) list"

text \<open>The resource a batch response or a conflict names: an entry of a named index.\<close>

datatype uri = IndexEntryUri string string pyval

datatype error =
    NoSuchProperty "string list"
  | PropertyNotIndexed string
  | RequiredProperty string
  | AttributeError string
  | TypeError string
  | NotImplementedError
  | ResourceNotFound handle
  | ResourceConflict uri
  | NotUnique uri
  | DoesNotExist string string
  | Exception string

text \<open>
  Modelled from the spec: \<^verbatim>\<open>properties.py\<close> (the class \<^verbatim>\<open>Property\<close>) is not among the
  sources. A descriptor carries the attributes \<^verbatim>\<open>core.py\<close> reads from it
  (\<^verbatim>\<open>required\<close>, \<^verbatim>\<open>index\<close>, \<^verbatim>\<open>unique_index\<close>, \<^verbatim>\<open>is_indexed\<close>) as independent
  flags, and its \<^verbatim>\<open>validate\<close> method as a parameter that returns the error it raises.
\<close>

record property =
  required :: bool
  index :: bool
  unique_index :: bool
  is_indexed :: bool
  validate :: "pyval \<Rightarrow> error option"

text \<open>
  What a class namespace can hold under a name: a \<^verbatim>\<open>Property\<close> instance, a relationship
  definition, a function, the per-class exception type and the index manager that the
  metaclass attaches, or any other constant.
\<close>

datatype attr =
    Prop property
  | RelDef
  | Method
  | ExcClass string
  | IndexManager string
  | Const pyval

record pyclass =
  cname :: string
  cdict :: "(string \<times> attr) list"

text \<open>
  A class is passed around as its method resolution order, itself first
  (\<^verbatim>\<open>cls.mro()\<close>).
\<close>

type_synonym klass = "pyclass list"

record node_instance =
  mro :: klass
  attrs :: props
  node :: "handle option"

text \<open>
  The instance dictionary \<^verbatim>\<open>self.__dict__\<close> is \<open>attrs\<close>; the store handle
  \<^verbatim>\<open>self.__node__\<close> is kept in the field \<open>node\<close> of its own (its name has the private
  prefix, so \<^verbatim>\<open>properties\<close> never reports it).
\<close>

subsection \<open>Python primitives\<close>

fun truthy :: "pyval \<Rightarrow> bool" where
  "truthy PyNone = False"
| "truthy (PyBool b) = b"
| "truthy (PyInt i) = (i \<noteq> 0)"
| "truthy (PyStr s) = (s \<noteq> [])"
| "truthy (PyMethod m) = True"
| "truthy (PyRelManager r) = True"

text \<open>Truth value of a class attribute; objects without a length are true.\<close>

fun attr_truthy :: "attr \<Rightarrow> bool" where
  "attr_truthy (Const v) = truthy v"
| "attr_truthy a = True"

text \<open>\<^verbatim>\<open>key.startswith('_')\<close>\<close>

fun startswith_underscore :: "string \<Rightarrow> bool" where
  "startswith_underscore [] = False"
| "startswith_underscore (c # cs) = (c = CHR ''_'')"

text \<open>\<^verbatim>\<open>str.upper\<close> on ASCII letters.\<close>

definition upper_char :: "char \<Rightarrow> char" where
  "upper_char c =
     (case map_of (zip ''abcdefghijklmnopqrstuvwxyz'' ''ABCDEFGHIJKLMNOPQRSTUVWXYZ'') c of
        Some u \<Rightarrow> u
      | None \<Rightarrow> c)"

definition upper :: "string \<Rightarrow> string" where
  "upper s = map upper_char s"

text \<open>\<^verbatim>\<open>getattr(cls, name)\<close>: the first namespace of the resolution order that has the name.\<close>

fun getattr_cls :: "klass \<Rightarrow> string \<Rightarrow> attr option" where
  "getattr_cls [] name = None"
| "getattr_cls (c # cs) name =
     (case map_of (cdict c) name of
        Some a \<Rightarrow> Some a
      | None \<Rightarrow> getattr_cls cs name)"

text \<open>\<^verbatim>\<open>cls.__name__\<close> and \<^verbatim>\<open>cls.__dict__\<close> of the class at the head of its resolution order.\<close>

fun name_of :: "klass \<Rightarrow> string" where
  "name_of [] = []"
| "name_of (c # cs) = cname c"

fun dict_of :: "klass \<Rightarrow> (string \<times> attr) list" where
  "dict_of [] = []"
| "dict_of (c # cs) = cdict c"

text \<open>Reading an attribute of a class attribute: only a descriptor has the flags.\<close>

fun attr_flag :: "(property \<Rightarrow> bool) \<Rightarrow> string \<Rightarrow> attr \<Rightarrow> error + bool" where
  "attr_flag f nm (Prop p) = Inr (f p)"
| "attr_flag f nm a = Inl (AttributeError nm)"

section \<open>The metaclass\<close>

text \<open>
  \<^verbatim>\<open>StructuredNodeMeta.__new__\<close> (lines 81-88): every class gets an exception type
  \<^verbatim>\<open>DoesNotExist\<close> of its own, and every class but the two base flavours gets an index
  manager named after \<^verbatim>\<open>_index_name\<close> of its own namespace, or after the class (an
  \<^verbatim>\<open>_index_name\<close> is taken to be a string).
\<close>

definition index_name_for :: "string \<Rightarrow> (string \<times> attr) list \<Rightarrow> string" where
  "index_name_for name dct =
     (case map_of dct ''_index_name'' of
        Some (Const (PyStr n)) \<Rightarrow> n
      | _ \<Rightarrow> name)"

definition StructuredNodeMeta :: "string \<Rightarrow> (string \<times> attr) list \<Rightarrow> pyclass" where
  "StructuredNodeMeta name dct =
     (let dct1 = AList.update ''DoesNotExist'' (ExcClass name) dct
      in \<lparr>cname = name,
          cdict = (if name \<noteq> ''StructuredNode'' \<and> name \<noteq> ''ReadOnlyNode''
                   then AList.update ''index'' (IndexManager (index_name_for name dct1)) dct1
                   else dct1)\<rparr>)"

section \<open>Record construction\<close>

text \<open>
  \<^verbatim>\<open>StructuredNode.get_property\<close> (lines 105-113). A missing name raises
  \<^verbatim>\<open>NoSuchProperty\<close> without arguments. For a name that resolves to something that is not
  a \<^verbatim>\<open>Property\<close>, line 112 builds a \<^verbatim>\<open>NoSuchProperty\<close> object and drops it (there is no
  \<^verbatim>\<open>raise\<close>), so both branches of the test return the attribute.
\<close>

fun is_Property :: "attr \<Rightarrow> bool" where
  "is_Property (Prop p) = True"
| "is_Property a = False"

definition get_property :: "klass \<Rightarrow> string \<Rightarrow> error + attr" where
  "get_property cls name =
     (case getattr_cls cls name of
        None \<Rightarrow> Inl (NoSuchProperty [])
      | Some node_property \<Rightarrow>
          (if attr_truthy node_property \<and> \<not> is_Property node_property
           then Inr node_property
           else Inr node_property))"

text \<open>\<^verbatim>\<open>object.__setattr__\<close>: a plain store into the instance dictionary.\<close>

definition object_setattr :: "node_instance \<Rightarrow> string \<Rightarrow> pyval \<Rightarrow> node_instance" where
  "object_setattr self key v = self\<lparr>attrs := AList.update key v (attrs self)\<rparr>"

text \<open>
  \<^verbatim>\<open>StructuredNode.__setattr__\<close> (lines 136-146). Only a descriptor has a callable
  \<^verbatim>\<open>validate\<close>; its error propagates, since the call stands in the \<^verbatim>\<open>else\<close> branch of
  the \<^verbatim>\<open>try\<close>.
\<close>

definition setattr_node :: "node_instance \<Rightarrow> string \<Rightarrow> pyval \<Rightarrow> error + node_instance" where
  "setattr_node self key v =
     (if startswith_underscore key then Inr (object_setattr self key v)
      else
        (case get_property (mro self) key of
           Inl (NoSuchProperty a) \<Rightarrow> Inr (object_setattr self key v)
         | Inl e \<Rightarrow> Inl e
         | Inr (Prop p) \<Rightarrow>
             (case validate p v of
                Some e \<Rightarrow> Inl e
              | None \<Rightarrow> Inr (object_setattr self key v))
         | Inr a \<Rightarrow> Inr (object_setattr self key v)))"

text \<open>Lines 120-121: every keyword argument is assigned through \<^verbatim>\<open>setattr\<close>.\<close>

fun set_kwargs :: "node_instance \<Rightarrow> props \<Rightarrow> error + node_instance" where
  "set_kwargs self [] = Inr self"
| "set_kwargs self ((key, v) # kwargs) =
     (case setattr_node self key v of
        Inl e \<Rightarrow> Inl e
      | Inr self1 \<Rightarrow> set_kwargs self1 kwargs)"

text \<open>
  Lines 124-131: the loop over the namespace of the concrete class only
  (\<^verbatim>\<open>self.__class__.__dict__\<close>), skipping private names.
\<close>

fun set_missing :: "(string \<times> attr) list \<Rightarrow> node_instance \<Rightarrow> error + node_instance" where
  "set_missing [] self = Inr self"
| "set_missing ((key, a) # items) self =
     (if startswith_underscore key then set_missing items self
      else
        (case a of
           Prop p \<Rightarrow>
             (if key \<notin> fst ` set (attrs self)
              then (if required p then Inl (RequiredProperty key)
                    else set_missing items (object_setattr self key PyNone))
              else set_missing items self)
         | _ \<Rightarrow> set_missing items self))"

text \<open>
  Modelled from the spec: \<^verbatim>\<open>relationship.py\<close> (\<^verbatim>\<open>RelationshipInstaller.__init__\<close>, called
  on line 134) is not among the sources. The spec has relationship-manager objects among
  the attributes of an instance; the model installs one under the name of every
  relationship definition of the concrete class.
\<close>

fun RelationshipInstaller_init :: "(string \<times> attr) list \<Rightarrow> node_instance \<Rightarrow> node_instance" where
  "RelationshipInstaller_init [] self = self"
| "RelationshipInstaller_init ((key, RelDef) # items) self =
     RelationshipInstaller_init items (object_setattr self key (PyRelManager key))"
| "RelationshipInstaller_init ((key, a) # items) self = RelationshipInstaller_init items self"

text \<open>\<^verbatim>\<open>StructuredNode.__init__\<close> (lines 119-134).\<close>

definition init :: "klass \<Rightarrow> props \<Rightarrow> error + node_instance" where
  "init cls kwargs =
     (case set_kwargs \<lparr>mro = cls, attrs = [], node = None\<rparr> kwargs of
        Inl e \<Rightarrow> Inl e
      | Inr self1 \<Rightarrow>
          (case set_missing (dict_of cls) self1 of
             Inl e \<Rightarrow> Inl e
           | Inr self2 \<Rightarrow> Inr (RelationshipInstaller_init (dict_of cls) (self2\<lparr>node := None\<rparr>))))"

text \<open>\<^verbatim>\<open>StructuredNode.properties\<close> (lines 148-159).\<close>

fun is_MethodType :: "pyval \<Rightarrow> bool" where
  "is_MethodType (PyMethod m) = True"
| "is_MethodType v = False"

fun is_RelationshipManager :: "pyval \<Rightarrow> bool" where
  "is_RelationshipManager (PyRelManager r) = True"
| "is_RelationshipManager v = False"

definition properties :: "node_instance \<Rightarrow> props" where
  "properties self =
     filter (\<lambda>(key, v). \<not> startswith_underscore key \<and> \<not> is_MethodType v
                         \<and> \<not> is_RelationshipManager v \<and> v \<noteq> PyNone)
       (attrs self)"

section \<open>The graph store\<close>

text \<open>
  Modelled from the spec: the client of the graph store (the modules \<^verbatim>\<open>neo4j\<close>,
  \<^verbatim>\<open>cypher\<close> and \<^verbatim>\<open>rest\<close> imported on line 1) is an external collaborator, given by
  the interface of section 6 of the specification. The model is an in-memory store: nodes
  with their properties, typed relationships, named indexes of entries
  \<open>(key, value, node)\<close>, a counter for fresh handles, the flag \<open>atomic\<close> (whether the
  server knows the uniqueness mode create-or-fail) and the log of the remote calls made.
  Calls fail only for a reason the state gives (a missing node, an index conflict); the
  transport never fails.
\<close>

datatype lucene = Term string pyval | And lucene lucene

datatype entity = NodeE handle | RelE handle

datatype batch_op =
    AddIndexedNodeOrFail string string pyval handle
  | GetOrAddIndexedNode string string pyval handle
  | AddIndexedNode string string pyval handle

record batch_response =
  status :: nat
  uri :: uri

datatype call =
    GetOrCreateIndex string
  | IndexQuery string lucene
  | IndexGetOrCreate string string pyval
  | IndexRemove string handle
  | GetProperties "handle list"
  | SetProperties handle props
  | GetRelationships handle
  | Create props handle string
  | Delete "entity list"
  | Submit "batch_op list"

type_synonym index_entries = "(string \<times> pyval \<times> handle) list"

record store =
  nodes :: "(handle \<times> props) list"
  rels :: "(handle \<times> handle \<times> string \<times> handle) list"
  indexes :: "(string \<times> index_entries) list"
  next_id :: handle
  atomic :: bool
  calls :: "call list"

definition log_call :: "call \<Rightarrow> store \<Rightarrow> store" where
  "log_call c s = s\<lparr>calls := calls s @ [c]\<rparr>"

definition entries_of :: "(string \<times> index_entries) list \<Rightarrow> string \<Rightarrow> index_entries" where
  "entries_of ixs idx = (case map_of ixs idx of Some es \<Rightarrow> es | None \<Rightarrow> [])"

definition has_entry :: "(string \<times> index_entries) list \<Rightarrow> string \<Rightarrow> string \<Rightarrow> pyval \<Rightarrow> bool" where
  "has_entry ixs idx k v = ((k, v) \<in> set (map (\<lambda>(k1, v1, h). (k1, v1)) (entries_of ixs idx)))"

definition add_entry ::
  "(string \<times> index_entries) list \<Rightarrow> string \<Rightarrow> string \<Rightarrow> pyval \<Rightarrow> handle \<Rightarrow> (string \<times> index_entries) list" where
  "add_entry ixs idx k v n = AList.update idx (entries_of ixs idx @ [(k, v, n)]) ixs"

definition get_or_create_index :: "string \<Rightarrow> store \<Rightarrow> string \<times> store" where
  "get_or_create_index name s =
     (name, log_call (GetOrCreateIndex name)
              (if name \<in> fst ` set (indexes s) then s
               else s\<lparr>indexes := indexes s @ [(name, [])]\<rparr>))"

fun matches :: "index_entries \<Rightarrow> lucene \<Rightarrow> handle list" where
  "matches es (Term k v) = map (\<lambda>(k1, v1, h). h) (filter (\<lambda>(k1, v1, h). k1 = k \<and> v1 = v) es)"
| "matches es (And x y) = filter (\<lambda>h. h \<in> set (matches es y)) (matches es x)"

definition index_query :: "string \<Rightarrow> lucene \<Rightarrow> store \<Rightarrow> handle list \<times> store" where
  "index_query idx q s = (matches (entries_of (indexes s) idx) q, log_call (IndexQuery idx q) s)"

definition index_remove :: "string \<Rightarrow> handle \<Rightarrow> store \<Rightarrow> store" where
  "index_remove idx n s =
     log_call (IndexRemove idx n)
       (s\<lparr>indexes := map (\<lambda>(nm, es). if nm = idx then (nm, filter (\<lambda>(k, v, h). h \<noteq> n) es)
                                      else (nm, es)) (indexes s)\<rparr>)"

text \<open>Get-or-create of a node through an index, keyed by one entry.\<close>

definition index_get_or_create ::
  "string \<Rightarrow> string \<Rightarrow> pyval \<Rightarrow> props \<Rightarrow> store \<Rightarrow> handle \<times> store" where
  "index_get_or_create idx k v ps s =
     (case matches (entries_of (indexes s) idx) (Term k v) of
        h # hs \<Rightarrow> (h, log_call (IndexGetOrCreate idx k v) s)
      | [] \<Rightarrow>
          (let n = next_id s
           in (n, log_call (IndexGetOrCreate idx k v)
                    (s\<lparr>nodes := nodes s @ [(n, ps)],
                       indexes := add_entry (indexes s) idx k v n,
                       next_id := Suc n\<rparr>))))"

fun lookup_all :: "(handle \<times> props) list \<Rightarrow> handle list \<Rightarrow> error + props list" where
  "lookup_all ns [] = Inr []"
| "lookup_all ns (h # hs) =
     (case map_of ns h of
        None \<Rightarrow> Inl (ResourceNotFound h)
      | Some p \<Rightarrow>
          (case lookup_all ns hs of
             Inl e \<Rightarrow> Inl e
           | Inr ps \<Rightarrow> Inr (p # ps)))"

definition get_properties :: "handle list \<Rightarrow> store \<Rightarrow> (error + props list) \<times> store" where
  "get_properties hs s = (lookup_all (nodes s) hs, log_call (GetProperties hs) s)"

definition set_properties :: "handle \<Rightarrow> props \<Rightarrow> store \<Rightarrow> (error + unit) \<times> store" where
  "set_properties n ps s =
     (if n \<in> fst ` set (nodes s)
      then (Inr (), log_call (SetProperties n ps) (s\<lparr>nodes := AList.update n ps (nodes s)\<rparr>))
      else (Inl (ResourceNotFound n), log_call (SetProperties n ps) s))"

definition get_relationships :: "handle \<Rightarrow> store \<Rightarrow> (error + handle list) \<times> store" where
  "get_relationships n s =
     (if n \<in> fst ` set (nodes s)
      then (Inr (map fst (filter (\<lambda>(r, a, t, b). a = n \<or> b = n) (rels s))),
            log_call (GetRelationships n) s)
      else (Inl (ResourceNotFound n), log_call (GetRelationships n) s))"

text \<open>
  \<^verbatim>\<open>create(props, (start, type, 0))\<close>: one write that makes the node and the relationship
  from \<open>start\<close> to it.
\<close>

definition client_create :: "props \<Rightarrow> handle \<Rightarrow> string \<Rightarrow> store \<Rightarrow> (handle \<times> handle) \<times> store" where
  "client_create ps start rel_type s =
     (let n = next_id s; r = Suc n
      in ((n, r), log_call (Create ps start rel_type)
                    (s\<lparr>nodes := nodes s @ [(n, ps)],
                       rels := rels s @ [(r, start, rel_type, n)],
                       next_id := Suc r\<rparr>)))"

text \<open>Deleting entities; the entries of a deleted node leave every index with it.\<close>

definition client_delete :: "entity list \<Rightarrow> store \<Rightarrow> store" where
  "client_delete es s =
     log_call (Delete es)
       (s\<lparr>nodes := filter (\<lambda>(n, ps). NodeE n \<notin> set es) (nodes s),
          rels := filter (\<lambda>(r, a, t, b). RelE r \<notin> set es) (rels s),
          indexes := map (\<lambda>(nm, ents). (nm, filter (\<lambda>(k, v, h). NodeE h \<notin> set es) ents))
                       (indexes s)\<rparr>)"

text \<open>
  A write batch. The client refuses the create-or-fail mode when the server does not know
  it; a submitted batch is applied in order, and a create-or-fail entry that finds its
  key and value indexed aborts the whole batch with a resource conflict. Get-or-add
  answers 200 for an entry that exists and 201 for one it adds.
\<close>

definition add_indexed_node_or_fail ::
  "batch_op list \<Rightarrow> string \<Rightarrow> string \<Rightarrow> pyval \<Rightarrow> handle \<Rightarrow> store \<Rightarrow> error + batch_op list" where
  "add_indexed_node_or_fail batch idx k v n s =
     (if atomic s then Inr (batch @ [AddIndexedNodeOrFail idx k v n]) else Inl NotImplementedError)"

definition get_or_add_indexed_node ::
  "batch_op list \<Rightarrow> string \<Rightarrow> string \<Rightarrow> pyval \<Rightarrow> handle \<Rightarrow> batch_op list" where
  "get_or_add_indexed_node batch idx k v n = batch @ [GetOrAddIndexedNode idx k v n]"

definition add_indexed_node ::
  "batch_op list \<Rightarrow> string \<Rightarrow> string \<Rightarrow> pyval \<Rightarrow> handle \<Rightarrow> batch_op list" where
  "add_indexed_node batch idx k v n = batch @ [AddIndexedNode idx k v n]"

definition respond :: "nat \<Rightarrow> string \<Rightarrow> string \<Rightarrow> pyval \<Rightarrow> batch_response" where
  "respond st idx k v = \<lparr>status = st, uri = IndexEntryUri idx k v\<rparr>"

fun run_batch ::
  "batch_op list \<Rightarrow> (string \<times> index_entries) list
     \<Rightarrow> error + (batch_response list \<times> (string \<times> index_entries) list)" where
  "run_batch [] ixs = Inr ([], ixs)"
| "run_batch (AddIndexedNodeOrFail idx k v n # ops) ixs =
     (if has_entry ixs idx k v then Inl (ResourceConflict (IndexEntryUri idx k v))
      else
        (case run_batch ops (add_entry ixs idx k v n) of
           Inl e \<Rightarrow> Inl e
         | Inr (rs, ixs1) \<Rightarrow> Inr (respond 201 idx k v # rs, ixs1)))"
| "run_batch (GetOrAddIndexedNode idx k v n # ops) ixs =
     (if has_entry ixs idx k v
      then
        (case run_batch ops ixs of
           Inl e \<Rightarrow> Inl e
         | Inr (rs, ixs1) \<Rightarrow> Inr (respond 200 idx k v # rs, ixs1))
      else
        (case run_batch ops (add_entry ixs idx k v n) of
           Inl e \<Rightarrow> Inl e
         | Inr (rs, ixs1) \<Rightarrow> Inr (respond 201 idx k v # rs, ixs1)))"
| "run_batch (AddIndexedNode idx k v n # ops) ixs =
     (case run_batch ops (add_entry ixs idx k v n) of
        Inl e \<Rightarrow> Inl e
      | Inr (rs, ixs1) \<Rightarrow> Inr (respond 201 idx k v # rs, ixs1))"

definition submit :: "batch_op list \<Rightarrow> store \<Rightarrow> (error + batch_response list) \<times> store" where
  "submit batch s =
     (case run_batch batch (indexes s) of
        Inl e \<Rightarrow> (Inl e, log_call (Submit batch) s)
      | Inr (rs, ixs) \<Rightarrow> (Inr rs, log_call (Submit batch) (s\<lparr>indexes := ixs\<rparr>)))"

section \<open>The index manager\<close>

text \<open>
  \<^verbatim>\<open>NodeIndexManager\<close> (lines 37-77). A manager is its \<^verbatim>\<open>node_class\<close> and its
  \<^verbatim>\<open>name\<close>; \<^verbatim>\<open>_index\<close> (lines 75-77) is a remote get-or-create at every access.
\<close>

definition private_index :: "string \<Rightarrow> store \<Rightarrow> string \<times> store" where
  "private_index name s = get_or_create_index name s"

text \<open>Lines 44-50 of \<^verbatim>\<open>search\<close>: the checks of the keyword criteria.\<close>

fun check_kwargs :: "klass \<Rightarrow> props \<Rightarrow> error + unit" where
  "check_kwargs node_class [] = Inr ()"
| "check_kwargs node_class ((k, v) # kwargs) =
     (case get_property node_class k of
        Inl e \<Rightarrow> Inl e
      | Inr p \<Rightarrow>
          (if \<not> attr_truthy p then Inl (NoSuchProperty [k])
           else
             (case attr_flag is_indexed ''is_indexed'' p of
                Inl e \<Rightarrow> Inl e
              | Inr ix \<Rightarrow>
                  (if \<not> ix then Inl (PropertyNotIndexed k)
                   else
                     (case p of
                        Prop d \<Rightarrow>
                          (case validate d v of
                             Some e \<Rightarrow> Inl e
                           | None \<Rightarrow> check_kwargs node_class kwargs)
                      | _ \<Rightarrow> Inl (AttributeError ''validate''))))))"

text \<open>Lines 52-53: \<^verbatim>\<open>reduce\<close> over the conjunction, which raises on no criterion at all.\<close>

fun reduce_and :: "lucene list \<Rightarrow> error + lucene" where
  "reduce_and [] = Inl (TypeError ''reduce() of empty sequence with no initial value'')"
| "reduce_and (q # qs) = Inr (foldl And q qs)"

text \<open>\<^verbatim>\<open>dict(zip(results, props))\<close>: one item per distinct node.\<close>

definition dict_zip :: "handle list \<Rightarrow> props list \<Rightarrow> (handle \<times> props) list" where
  "dict_zip results ps = foldl (\<lambda>d (h, p). AList.update h p d) [] (zip results ps)"

text \<open>Lines 59-62: every item goes through the constructor, then gets its handle.\<close>

fun build_nodes :: "klass \<Rightarrow> (handle \<times> props) list \<Rightarrow> error + node_instance list" where
  "build_nodes node_class [] = Inr []"
| "build_nodes node_class ((n, ps) # items) =
     (case init node_class ps of
        Inl e \<Rightarrow> Inl e
      | Inr neonode \<Rightarrow>
          (case build_nodes node_class items of
             Inl e \<Rightarrow> Inl e
           | Inr built \<Rightarrow> Inr (neonode\<lparr>node := Some n\<rparr> # built)))"

text \<open>\<^verbatim>\<open>NodeIndexManager.search\<close> (lines 42-63).\<close>

definition search ::
  "klass \<Rightarrow> string \<Rightarrow> lucene option \<Rightarrow> props \<Rightarrow> store \<Rightarrow> (error + node_instance list) \<times> store" where
  "search node_class name query kwargs s =
     (case check_kwargs node_class kwargs of
        Inl e \<Rightarrow> (Inl e, s)
      | Inr u \<Rightarrow>
          (case (case query of Some q \<Rightarrow> Inr q | None \<Rightarrow> reduce_and (map (\<lambda>(k, v). Term k v) kwargs)) of
             Inl e \<Rightarrow> (Inl e, s)
           | Inr q \<Rightarrow>
               (let (idx, s1) = private_index name s;
                    (results, s2) = index_query idx q s1
                in (case get_properties results s2 of
                      (Inl e, s3) \<Rightarrow> (Inl e, s3)
                    | (Inr ps, s3) \<Rightarrow> (build_nodes node_class (dict_zip results ps), s3)))))"



section \<open>The category registry\<close>

record category =
  cat_name :: string
  cat_node :: handle
  cat_instance :: string

text \<open>
  The state of the process: the store behind the connection and the dictionary
  \<^verbatim>\<open>category_factory.cache\<close> (empty until the first call makes it).
\<close>

record world =
  db :: store
  cache :: "(string \<times> category) list"

text \<open>\<^verbatim>\<open>category_factory\<close> (lines 233-247).\<close>

definition category_factory :: "klass \<Rightarrow> world \<Rightarrow> category \<times> world" where
  "category_factory instance_cls w =
     (let name = name_of instance_cls
      in (case map_of (cache w) name of
            Some c \<Rightarrow> (c, w)
          | None \<Rightarrow>
              (let (category_index, s1) = get_or_create_index ''Category'' (db w);
                   (n, s2) = index_get_or_create category_index ''category'' (PyStr name)
                               [(''category'', PyStr name)] s1;
                   c = \<lparr>cat_name = name, cat_node = n, cat_instance = upper name\<rparr>
               in (c, w\<lparr>db := s2, cache := AList.update name c (cache w)\<rparr>))))"

section \<open>The record lifecycle\<close>

text \<open>
  \<^verbatim>\<open>cls.index._index\<close>: the index manager is an attribute of the class, and reading its
  index is a remote call.
\<close>

definition class_index :: "klass \<Rightarrow> store \<Rightarrow> (error + string) \<times> store" where
  "class_index cls s =
     (case getattr_cls cls ''index'' of
        Some (IndexManager name) \<Rightarrow> (let (idx, s1) = private_index name s in (Inr idx, s1))
      | Some a \<Rightarrow> (Inl (AttributeError ''_index''), s)
      | None \<Rightarrow> (Inl (AttributeError ''index''), s))"

text \<open>
  Lines 182-190 of \<^verbatim>\<open>_update_index\<close>, for one supplied property. The arguments of a
  batch method are evaluated before the call, so the index is read once before
  create-or-fail and once more before the fallback.
\<close>

definition batch_step ::
  "klass \<Rightarrow> handle \<Rightarrow> string \<Rightarrow> pyval \<Rightarrow> batch_op list \<Rightarrow> store \<Rightarrow> (error + batch_op list) \<times> store" where
  "batch_step cls n key v batch s =
     (if key \<in> fst ` set (dict_of cls)
      then
        (case get_property cls key of
           Inl e \<Rightarrow> (Inl e, s)
         | Inr node_property \<Rightarrow>
             (case attr_flag unique_index ''unique_index'' node_property of
                Inl e \<Rightarrow> (Inl e, s)
              | Inr True \<Rightarrow>
                  (case class_index cls s of
                     (Inl e, s1) \<Rightarrow> (Inl e, s1)
                   | (Inr idx, s1) \<Rightarrow>
                       (case add_indexed_node_or_fail batch idx key v n s1 of
                          Inr batch1 \<Rightarrow> (Inr batch1, s1)
                        | Inl NotImplementedError \<Rightarrow>
                            (case class_index cls s1 of
                               (Inl e, s2) \<Rightarrow> (Inl e, s2)
                             | (Inr idx2, s2) \<Rightarrow>
                                 (Inr (get_or_add_indexed_node batch idx2 key v n), s2))
                        | Inl e \<Rightarrow> (Inl e, s1)))
              | Inr False \<Rightarrow>
                  (case attr_flag index ''index'' node_property of
                     Inl e \<Rightarrow> (Inl e, s)
                   | Inr True \<Rightarrow>
                       (case class_index cls s of
                          (Inl e, s1) \<Rightarrow> (Inl e, s1)
                        | (Inr idx, s1) \<Rightarrow> (Inr (add_indexed_node batch idx key v n), s1))
                   | Inr False \<Rightarrow> (Inr batch, s))))
      else (Inr batch, s))"

fun fill_batch ::
  "klass \<Rightarrow> handle \<Rightarrow> props \<Rightarrow> batch_op list \<Rightarrow> store \<Rightarrow> (error + batch_op list) \<times> store" where
  "fill_batch cls n [] batch s = (Inr batch, s)"
| "fill_batch cls n ((key, v) # ps) batch s =
     (case batch_step cls n key v batch s of
        (Inl e, s1) \<Rightarrow> (Inl e, s1)
      | (Inr batch1, s1) \<Rightarrow> fill_batch cls n ps batch1 s1)"

text \<open>Lines 191-196: the submission and the translation of a conflict.\<close>

fun check_responses :: "batch_response list \<Rightarrow> error + unit" where
  "check_responses [] = Inr ()"
| "check_responses (r # rs) =
     (if status r = 200 then Inl (NotUnique (uri r)) else check_responses rs)"

definition submit_checked :: "batch_op list \<Rightarrow> store \<Rightarrow> (error + unit) \<times> store" where
  "submit_checked batch s =
     (case submit batch s of
        (Inl (ResourceConflict r), s1) \<Rightarrow> (Inl (NotUnique r), s1)
      | (Inl e, s1) \<Rightarrow> (Inl e, s1)
      | (Inr rs, s1) \<Rightarrow> (check_responses rs, s1))"

text \<open>
  \<^verbatim>\<open>StructuredNode._update_index\<close> (lines 176-196), for the handle \<^verbatim>\<open>self.__node__\<close>
  that both callers have set. The class \<open>c\<close> met on the walk stands with the rest of the
  resolution order behind it, which is where its own attribute lookups continue.
\<close>

fun private_update_index :: "klass \<Rightarrow> handle \<Rightarrow> props \<Rightarrow> store \<Rightarrow> (error + unit) \<times> store" where
  "private_update_index [] n ps s = (Inr (), s)"
| "private_update_index (c # cs) n ps s =
     (if cname c = ''StructuredNode'' \<or> cname c = ''ReadOnlyNode'' then (Inr (), s)
      else
        (case fill_batch (c # cs) n ps [] s of
           (Inl e, s1) \<Rightarrow> (Inl e, s1)
         | (Inr batch, s1) \<Rightarrow>
             (case submit_checked batch s1 of
                (Inl e, s2) \<Rightarrow> (Inl e, s2)
              | (Inr u, s2) \<Rightarrow> private_update_index cs n ps s2)))"

text \<open>\<^verbatim>\<open>StructuredNode.delete\<close> (lines 207-215).\<close>

definition delete :: "node_instance \<Rightarrow> store \<Rightarrow> (error + bool) \<times> node_instance \<times> store" where
  "delete self s =
     (case node self of
        Some n \<Rightarrow>
          (case get_relationships n s of
             (Inl e, s1) \<Rightarrow> (Inl e, self, s1)
           | (Inr to_delete, s1) \<Rightarrow>
               (Inr True, self\<lparr>node := None\<rparr>, client_delete (map RelE to_delete @ [NodeE n]) s1))
      | None \<Rightarrow> (Inl (Exception ''Node has not been saved so cannot be deleted''), self, s))"

text \<open>
  \<^verbatim>\<open>StructuredNode._create\<close> (lines 161-174). The store always answers a creation with a
  handle, so the test of line 165 (whose exception is built and not raised) never fires.
  Every error of the model is an \<^verbatim>\<open>Exception\<close>, so the handler of line 171 catches it;
  an error of \<^verbatim>\<open>delete\<close> inside the handler replaces the one caught.
\<close>

definition private_create :: "node_instance \<Rightarrow> props \<Rightarrow> world \<Rightarrow> (error + unit) \<times> node_instance \<times> world" where
  "private_create self ps w =
     (let relation_name = upper (name_of (mro self));
          (cat, w1) = category_factory (mro self) w;
          ((n, rel), s2) = client_create ps (cat_node cat) relation_name (db w1);
          self1 = self\<lparr>node := Some n\<rparr>
      in (case private_update_index (mro self1) n ps s2 of
            (Inr u, s3) \<Rightarrow> (Inr (), self1, w1\<lparr>db := s3\<rparr>)
          | (Inl exc, s3) \<Rightarrow>
              (case delete self1 s3 of
                 (Inl e, self2, s4) \<Rightarrow> (Inl e, self2, w1\<lparr>db := s4\<rparr>)
               | (Inr b, self2, s4) \<Rightarrow> (Inl exc, self2, w1\<lparr>db := s4\<rparr>))))"

text \<open>\<^verbatim>\<open>StructuredNode.save\<close> (lines 198-205); the value returned is \<^verbatim>\<open>self\<close>.\<close>

definition save :: "node_instance \<Rightarrow> world \<Rightarrow> (error + node_instance) \<times> node_instance \<times> world" where
  "save self w =
     (case node self of
        Some n \<Rightarrow>
          (case set_properties n (properties self) (db w) of
             (Inl e, s1) \<Rightarrow> (Inl e, self, w\<lparr>db := s1\<rparr>)
           | (Inr u, s1) \<Rightarrow>
               (case class_index (mro self) s1 of
                  (Inl e, s2) \<Rightarrow> (Inl e, self, w\<lparr>db := s2\<rparr>)
                | (Inr idx, s2) \<Rightarrow>
                    (case private_update_index (mro self) n (properties self) (index_remove idx n s2) of
                       (Inl e, s3) \<Rightarrow> (Inl e, self, w\<lparr>db := s3\<rparr>)
                     | (Inr u, s3) \<Rightarrow> (Inr self, self, w\<lparr>db := s3\<rparr>))))
      | None \<Rightarrow>
          (case private_create self (properties self) w of
             (Inl e, self1, w1) \<Rightarrow> (Inl e, self1, w1)
           | (Inr u, self1, w1) \<Rightarrow> (Inr self1, self1, w1)))"

section \<open>Record types and stores for the examples\<close>

text \<open>
  The scenario of the specification: a type \<^verbatim>\<open>Person\<close> with a unique-indexed, required
  string \<^verbatim>\<open>name\<close> and an indexed, optional integer \<^verbatim>\<open>age\<close>, below the base class.
\<close>

definition accept_str :: "pyval \<Rightarrow> error option" where
  "accept_str v = (case v of PyStr s \<Rightarrow> None | _ \<Rightarrow> Some (TypeError ''str expected''))"

definition accept_int :: "pyval \<Rightarrow> error option" where
  "accept_int v = (case v of PyInt i \<Rightarrow> None | _ \<Rightarrow> Some (TypeError ''int expected''))"

definition name_property :: property where
  "name_property =
     \<lparr>required = True, index = False, unique_index = True, is_indexed = True,
      validate = accept_str\<rparr>"

definition age_property :: property where
  "age_property =
     \<lparr>required = False, index = True, unique_index = False, is_indexed = True,
      validate = accept_int\<rparr>"

definition StructuredNode_class :: pyclass where
  "StructuredNode_class =
     StructuredNodeMeta ''StructuredNode''
       [(''get_property'', Method), (''category'', Method), (''save'', Method),
        (''delete'', Method)]"

definition Person :: klass where
  "Person =
     [StructuredNodeMeta ''Person'' [(''name'', Prop name_property), (''age'', Prop age_property)],
      StructuredNode_class]"

definition empty_store :: store where
  "empty_store = \<lparr>nodes = [], rels = [], indexes = [], next_id = 0, atomic = True, calls = []\<rparr>"

definition empty_world :: world where
  "empty_world = \<lparr>db = empty_store, cache = []\<rparr>"

definition alice :: node_instance where
  "alice =
     \<lparr>mro = Person, attrs = [(''name'', PyStr ''alice''), (''age'', PyInt 30)], node = None\<rparr>"


text \<open>A type that declares a required property under a private name.\<close>

definition Token :: klass where
  "Token = [StructuredNodeMeta ''Token'' [(''_secret'', Prop name_property)], StructuredNode_class]"

text \<open>
  A store in which \<^verbatim>\<open>Person(name='alice', age=30)\<close> is persisted under the category of its
  type, the process that saved it, and the store right after the creation of a second
  node with the same name.
\<close>

definition alice_store :: store where
  "alice_store =
     \<lparr>nodes = [(0, [(''category'', PyStr ''Person'')]),
               (1, [(''name'', PyStr ''alice''), (''age'', PyInt 30)])],
      rels = [(2, 0, ''PERSON'', 1)],
      indexes = [(''Category'', [(''category'', PyStr ''Person'', 0)]),
                 (''Person'', [(''name'', PyStr ''alice'', 1), (''age'', PyInt 30, 1)])],
      next_id = 3, atomic = True, calls = []\<rparr>"

definition alice_world :: world where
  "alice_world =
     \<lparr>db = alice_store,
      cache = [(''Person'', \<lparr>cat_name = ''Person'', cat_node = 0, cat_instance = ''PERSON''\<rparr>)]\<rparr>"


text \<open>
  A store whose only node, indexed under its age, was written without a name (by another
  client, or under an older declaration of the type).
\<close>

definition legacy_store :: store where
  "legacy_store =
     \<lparr>nodes = [(1, [(''age'', PyInt 30)])], rels = [],
      indexes = [(''Person'', [(''age'', PyInt 30, 1)])], next_id = 2, atomic = True, calls = []\<rparr>"

text \<open>The persisted alice, a year older in memory.\<close>

definition alice_older :: node_instance where
  "alice_older =
     \<lparr>mro = Person, attrs = [(''name'', PyStr ''alice''), (''age'', PyInt 31)], node = Some 1\<rparr>"

section \<open>Notions used in the statements\<close>

text \<open>The test of line 178, and a class that carries an index manager of its own.\<close>

definition is_base :: "pyclass \<Rightarrow> bool" where
  "is_base c = (cname c = ''StructuredNode'' \<or> cname c = ''ReadOnlyNode'')"

definition has_index_manager :: "pyclass \<Rightarrow> bool" where
  "has_index_manager c =
     (case map_of (cdict c) ''index'' of Some (IndexManager i) \<Rightarrow> True | _ \<Rightarrow> False)"

text \<open>The nodes of the store that carry the category of a type name.\<close>

definition category_nodes :: "store \<Rightarrow> string \<Rightarrow> handle list" where
  "category_nodes s nm = map fst (filter (\<lambda>(h, ps). ps = [(''category'', PyStr nm)]) (nodes s))"

text \<open>A run of category lookups, one per class of the list.\<close>

fun category_calls :: "klass list \<Rightarrow> world \<Rightarrow> world" where
  "category_calls [] w = w"
| "category_calls (cls # clss) w = category_calls clss (snd (category_factory cls w))"

subsection \<open>Invariance of the graph under index operations\<close>

text \<open>The parts of the store that only node and relationship writes change.\<close>

definition same_graph :: "store \<Rightarrow> store \<Rightarrow> bool" where
  "same_graph s t = (nodes t = nodes s \<and> rels t = rels s \<and> next_id t = next_id s \<and> atomic t = atomic s)"

section \<open>Evaluation of the examples\<close>

lemmas example_defs =
  Person_def StructuredNode_class_def StructuredNodeMeta_def index_name_for_def
  name_property_def age_property_def accept_str_def accept_int_def

lemmas store_defs =
  private_index_def get_or_create_index_def index_query_def get_properties_def log_call_def
  entries_of_def dict_zip_def

lemma init_alice_only_name:
  "init Person [(''name'', PyStr ''alice'')] =
     Inr \<lparr>mro = Person, attrs = [(''name'', PyStr ''alice''), (''age'', PyNone)], node = None\<rparr>"
  by (simp add: init_def example_defs setattr_node_def get_property_def object_setattr_def)

text \<open>
  The store of the examples is the one that saving alice in an empty process leaves (but
  for the log of calls), and the process is left with the category of her type cached.
\<close>

lemma save_alice_reaches_alice_world:
  "(case save alice empty_world of
      (Inr x, self1, w1) \<Rightarrow>
         node x = Some 1 \<and> nodes (db w1) = nodes alice_store \<and> rels (db w1) = rels alice_store
         \<and> indexes (db w1) = indexes alice_store \<and> next_id (db w1) = next_id alice_store
         \<and> cache w1 = cache alice_world
    | _ \<Rightarrow> False)"
  by code_simp


lemma upper_Person: "upper ''Person'' = ''PERSON''"
  by (simp add: upper_def upper_char_def)





lemma name_of_Person: "name_of Person = ''Person''"
  by (simp add: Person_def StructuredNodeMeta_def)


lemma search_alice_eval:
  "(case fst (search Person ''Person'' None [(''name'', PyStr ''alice'')] alice_store) of
      Inr [x] \<Rightarrow> node x = Some 1 \<and> attrs x = [(''name'', PyStr ''alice''), (''age'', PyInt 30)]
    | _ \<Rightarrow> False)"
  by code_simp


lemma search_alice_result:
  obtains x s1 where
    "search Person ''Person'' None [(''name'', PyStr ''alice'')] alice_store = (Inr [x], s1)"
    "node x = Some 1" "attrs x = [(''name'', PyStr ''alice''), (''age'', PyInt 30)]"
proof -
  obtain r s1 where rs: "search Person ''Person'' None [(''name'', PyStr ''alice'')] alice_store = (r, s1)"
    by (cases "search Person ''Person'' None [(''name'', PyStr ''alice'')] alice_store")
  with search_alice_eval obtain x where "r = Inr [x]" "node x = Some 1"
    "attrs x = [(''name'', PyStr ''alice''), (''age'', PyInt 30)]"
    by (auto split: sum.splits list.splits)
  with rs that show ?thesis by blast
qed


section \<open>Construction and the snapshot of properties\<close>

lemma attrs_object_setattr:
  "map_of (attrs (object_setattr self key v)) k = (if k = key then Some v else map_of (attrs self) k)"
  by (simp add: object_setattr_def update_conv')

lemma keys_object_setattr:
  "fst ` set (attrs (object_setattr self key v)) = insert key (fst ` set (attrs self))"
  by (simp add: object_setattr_def dom_update)

lemma mro_object_setattr: "mro (object_setattr self key v) = mro self"
  by (simp add: object_setattr_def)

lemma node_object_setattr: "node (object_setattr self key v) = node self"
  by (simp add: object_setattr_def)

lemma setattr_node_cases:
  assumes "setattr_node self key v = Inr self1"
  shows "self1 = object_setattr self key v"
  using assms
  by (auto simp: setattr_node_def split: if_splits sum.splits error.splits attr.splits option.splits)

lemma setattr_node_validated:
  assumes "setattr_node self key v = Inr self1" "\<not> startswith_underscore key"
    "getattr_cls (mro self) key = Some (Prop p)"
  shows "validate p v = None"
  using assms
  by (auto simp: setattr_node_def get_property_def split: if_splits sum.splits error.splits attr.splits option.splits)

lemma set_kwargs_keys:
  "set_kwargs self kwargs = Inr self1 \<Longrightarrow>
     fst ` set (attrs self1) = fst ` set (attrs self) \<union> fst ` set kwargs"
proof (induction kwargs arbitrary: self)
  case Nil then show ?case by simp
next
  case (Cons kv kwargs)
  obtain k v where kv: "kv = (k, v)" by (cases kv)
  from Cons.prems kv obtain s where s: "setattr_node self k v = Inr s" "set_kwargs s kwargs = Inr self1"
    by (auto split: sum.splits)
  from setattr_node_cases[OF s(1)] Cons.IH[OF s(2)] kv show ?case by (auto simp: keys_object_setattr)
qed

lemma set_kwargs_absent:
  "set_kwargs self kwargs = Inr self1 \<Longrightarrow> key \<notin> fst ` set kwargs \<Longrightarrow>
     map_of (attrs self1) key = map_of (attrs self) key"
proof (induction kwargs arbitrary: self)
  case Nil then show ?case by simp
next
  case (Cons kv kwargs)
  obtain k v where kv: "kv = (k, v)" by (cases kv)
  from Cons.prems kv obtain s where s: "setattr_node self k v = Inr s" "set_kwargs s kwargs = Inr self1"
    by (auto split: sum.splits)
  from Cons.prems kv have "key \<noteq> k" "key \<notin> fst ` set kwargs" by auto
  with setattr_node_cases[OF s(1)] Cons.IH[OF s(2)] show ?case by (simp add: attrs_object_setattr)
qed


lemma set_kwargs_validated:
  "set_kwargs self kwargs = Inr self1 \<Longrightarrow> (key, v) \<in> set kwargs \<Longrightarrow>
   \<not> startswith_underscore key \<Longrightarrow> getattr_cls (mro self) key = Some (Prop p) \<Longrightarrow>
     validate p v = None"
proof (induction kwargs arbitrary: self)
  case Nil then show ?case by simp
next
  case (Cons kv kwargs)
  obtain k w where kv: "kv = (k, w)" by (cases kv)
  from Cons.prems kv obtain s where s: "setattr_node self k w = Inr s" "set_kwargs s kwargs = Inr self1"
    by (auto split: sum.splits)
  have ms: "mro s = mro self" using setattr_node_cases[OF s(1)] by (simp add: mro_object_setattr)
  show ?case
  proof (cases "(key, v) \<in> set kwargs")
    case True
    with Cons.IH[OF s(2)] Cons.prems ms show ?thesis by simp
  next
    case False
    with Cons.prems kv have eq: "k = key" "w = v" by auto
    with setattr_node_validated[OF s(1)] Cons.prems show ?thesis by simp
  qed
qed

lemma set_missing_step:
  obtains (skip) "set_missing ((k, a) # items) self = set_missing items self"
      "startswith_underscore k \<or> \<not> is_Property a \<or> k \<in> fst ` set (attrs self)"
    | (setnone) p where "a = Prop p" "\<not> required p" "\<not> startswith_underscore k"
        "k \<notin> fst ` set (attrs self)"
        "set_missing ((k, a) # items) self = set_missing items (object_setattr self k PyNone)"
    | (fail) p where "a = Prop p" "required p" "\<not> startswith_underscore k"
        "k \<notin> fst ` set (attrs self)"
        "set_missing ((k, a) # items) self = Inl (RequiredProperty k)"
proof (cases "startswith_underscore k \<or> \<not> is_Property a \<or> k \<in> fst ` set (attrs self)")
  case True
  then have "set_missing ((k, a) # items) self = set_missing items self"
    by (cases a) auto
  with True show ?thesis by (rule skip[rotated])
next
  case False
  then obtain p where p: "a = Prop p" by (cases a) auto
  show ?thesis
  proof (cases "required p")
    case True
    with False p show ?thesis by (intro fail[of p]) auto
  next
    case nr: False
    with False p show ?thesis by (intro setnone[of p]) auto
  qed
qed

lemma set_missing_present:
  "set_missing items self = Inr self1 \<Longrightarrow> key \<in> fst ` set (attrs self) \<Longrightarrow>
     map_of (attrs self1) key = map_of (attrs self) key"
proof (induction items arbitrary: self)
  case Nil then show ?case by simp
next
  case (Cons ka items)
  obtain k a where ka: "ka = (k, a)" by (cases ka)
  show ?case
  proof (cases rule: set_missing_step[of k a items self])
    case skip
    with Cons ka show ?thesis by simp
  next
    case (setnone p)
    with Cons.prems ka have sm: "set_missing items (object_setattr self k PyNone) = Inr self1" by simp
    from setnone Cons.prems have ne: "key \<noteq> k" by auto
    have "key \<in> fst ` set (attrs (object_setattr self k PyNone))"
      using Cons.prems(2) by (simp add: keys_object_setattr)
    from Cons.IH[OF sm this] ne show ?thesis by (simp add: attrs_object_setattr)
  next
    case (fail p)
    with Cons.prems ka show ?thesis by simp
  qed
qed

text \<open>An own, public, declared property that was not supplied: optional and null.\<close>

lemma set_missing_absent:
  "set_missing items self = Inr self1 \<Longrightarrow> map_of items key = Some (Prop p) \<Longrightarrow>
   \<not> startswith_underscore key \<Longrightarrow> key \<notin> fst ` set (attrs self) \<Longrightarrow>
     \<not> required p \<and> map_of (attrs self1) key = Some PyNone"
proof (induction items arbitrary: self)
  case Nil then show ?case by simp
next
  case (Cons ka items)
  obtain k a where ka: "ka = (k, a)" by (cases ka)
  show ?case
  proof (cases "k = key")
    case True
    with Cons.prems ka have a: "a = Prop p" by simp
    with True Cons.prems ka have np: "\<not> required p"
      and sm: "set_missing items (object_setattr self key PyNone) = Inr self1"
      by (auto split: if_splits)
    have "key \<in> fst ` set (attrs (object_setattr self key PyNone))"
      by (simp add: keys_object_setattr)
    from set_missing_present[OF sm this] np show ?thesis by (simp add: attrs_object_setattr)
  next
    case False
    with Cons.prems ka have mo: "map_of items key = Some (Prop p)" by simp
    show ?thesis
    proof (cases rule: set_missing_step[of k a items self])
      case skip
      with Cons.prems ka have "set_missing items self = Inr self1" by simp
      from Cons.IH[OF this mo Cons.prems(3,4)] show ?thesis .
    next
      case (setnone q)
      with Cons.prems ka have sm: "set_missing items (object_setattr self k PyNone) = Inr self1" by simp
      from False Cons.prems(4) have "key \<notin> fst ` set (attrs (object_setattr self k PyNone))"
        by (simp add: keys_object_setattr)
      from Cons.IH[OF sm mo Cons.prems(3) this] show ?thesis .
    next
      case (fail q)
      with Cons.prems ka show ?thesis by simp
    qed
  qed
qed

text \<open>A failure of the loop names a required, public, own property that is absent.\<close>

lemma set_missing_fails:
  "set_missing items self = Inl e \<Longrightarrow>
     \<exists>k q. e = RequiredProperty k \<and> (k, Prop q) \<in> set items \<and> required q
        \<and> \<not> startswith_underscore k \<and> k \<notin> fst ` set (attrs self)"
proof (induction items arbitrary: self)
  case Nil then show ?case by simp
next
  case (Cons ka items)
  obtain k a where ka: "ka = (k, a)" by (cases ka)
  show ?case
  proof (cases rule: set_missing_step[of k a items self])
    case skip
    with Cons.prems ka have "set_missing items self = Inl e" by simp
    from Cons.IH[OF this] show ?thesis by auto
  next
    case (setnone p)
    with Cons.prems ka have sm: "set_missing items (object_setattr self k PyNone) = Inl e" by simp
    from Cons.IH[OF sm] show ?thesis by (auto simp: keys_object_setattr)
  next
    case (fail p)
    with Cons.prems ka show ?thesis by auto
  qed
qed

text \<open>The loop fails whenever such a property exists.\<close>

lemma set_missing_required:
  "map_of items key = Some (Prop p) \<Longrightarrow> required p \<Longrightarrow> \<not> startswith_underscore key \<Longrightarrow>
   key \<notin> fst ` set (attrs self) \<Longrightarrow> \<exists>e. set_missing items self = Inl e"
proof (induction items arbitrary: self)
  case Nil then show ?case by simp
next
  case (Cons ka items)
  obtain k a where ka: "ka = (k, a)" by (cases ka)
  show ?case
  proof (cases "k = key")
    case True
    with Cons.prems ka show ?thesis by simp
  next
    case False
    with Cons.prems ka have mem: "map_of items key = Some (Prop p)" by simp
    show ?thesis
    proof (cases rule: set_missing_step[of k a items self])
      case skip
      with Cons.IH[OF mem Cons.prems(2,3,4)] ka show ?thesis by simp
    next
      case (setnone q)
      from False Cons.prems(4) have "key \<notin> fst ` set (attrs (object_setattr self k PyNone))"
        by (simp add: keys_object_setattr)
      from Cons.IH[OF mem Cons.prems(2,3) this] setnone ka show ?thesis by simp
    next
      case (fail q)
      with ka show ?thesis by simp
    qed
  qed
qed

lemma RelationshipInstaller_init_attrs:
  "(key, RelDef) \<notin> set items \<Longrightarrow>
     map_of (attrs (RelationshipInstaller_init items self)) key = map_of (attrs self) key"
  by (induction items self rule: RelationshipInstaller_init.induct)
     (auto simp: attrs_object_setattr)


lemma set_kwargs_present:
  "set_kwargs self kwargs = Inr self1 \<Longrightarrow> key \<in> fst ` set kwargs \<Longrightarrow>
     \<exists>v. (key, v) \<in> set kwargs \<and> map_of (attrs self1) key = Some v"
proof (induction kwargs arbitrary: self)
  case Nil then show ?case by simp
next
  case (Cons kv kwargs)
  obtain k w where kv: "kv = (k, w)" by (cases kv)
  from Cons.prems kv obtain s where s: "setattr_node self k w = Inr s" "set_kwargs s kwargs = Inr self1"
    by (auto split: sum.splits)
  show ?case
  proof (cases "key \<in> fst ` set kwargs")
    case True
    from Cons.IH[OF s(2) True] show ?thesis by auto
  next
    case False
    with Cons.prems kv have eq: "k = key" by auto
    from set_kwargs_absent[OF s(2) False] setattr_node_cases[OF s(1)] eq kv show ?thesis
      by (auto simp: attrs_object_setattr)
  qed
qed

lemma distinct_not_RelDef:
  "distinct (map fst items) \<Longrightarrow> map_of items key = Some (Prop p) \<Longrightarrow> (key, RelDef) \<notin> set items"
  by (metis attr.distinct(1) map_of_is_SomeI option.inject)

text \<open>
  Claim C5, as amended. For a property that the concrete class itself declares under a
  name without the private prefix: when construction succeeds and the property was not
  supplied, the property is optional and is set to the null marker; when it was supplied,
  the instance holds a supplied value that the validation of its descriptor accepted.
  When such a property is required and not supplied, construction fails; if assigning the
  supplied values raised nothing, the failure is \<^verbatim>\<open>RequiredProperty\<close> naming a required,
  public property of the concrete class that was not supplied.
\<close>

theorem init_own_public_properties:
  assumes own: "map_of (cdict c) key = Some (Prop p)"
    and public: "\<not> startswith_underscore key"
    and dict: "distinct (map fst (cdict c))"
  shows "(\<forall>self. init (c # bases) kwargs = Inr self \<longrightarrow>
            (key \<notin> fst ` set kwargs \<longrightarrow> \<not> required p \<and> map_of (attrs self) key = Some PyNone) \<and>
            (key \<in> fst ` set kwargs \<longrightarrow>
               (\<exists>v. (key, v) \<in> set kwargs \<and> validate p v = None \<and> map_of (attrs self) key = Some v)))
       \<and> (required p \<and> key \<notin> fst ` set kwargs \<longrightarrow>
            (\<exists>e. init (c # bases) kwargs = Inl e) \<and>
            (\<forall>self1. set_kwargs \<lparr>mro = c # bases, attrs = [], node = None\<rparr> kwargs = Inr self1 \<longrightarrow>
               (\<exists>k q. init (c # bases) kwargs = Inl (RequiredProperty k) \<and> (k, Prop q) \<in> set (cdict c)
                  \<and> required q \<and> \<not> startswith_underscore k \<and> k \<notin> fst ` set kwargs)))"
proof (intro conjI allI impI)
  fix self
  assume ok: "init (c # bases) kwargs = Inr self"
  then obtain self1 self2 where
    s1: "set_kwargs \<lparr>mro = c # bases, attrs = [], node = None\<rparr> kwargs = Inr self1"
    and s2: "set_missing (cdict c) self1 = Inr self2"
    and s3: "self = RelationshipInstaller_init (cdict c) (self2\<lparr>node := None\<rparr>)"
    by (auto simp: init_def split: sum.splits)
  have keys1: "fst ` set (attrs self1) = fst ` set kwargs"
    using set_kwargs_keys[OF s1] by simp
  have final: "map_of (attrs self) key = map_of (attrs self2) key"
    using RelationshipInstaller_init_attrs[OF distinct_not_RelDef[OF dict own]] s3 by simp
  {
    assume absent: "key \<notin> fst ` set kwargs"
    with keys1 have "key \<notin> fst ` set (attrs self1)" by simp
    from set_missing_absent[OF s2 own public this] final
    show "\<not> required p" and "map_of (attrs self) key = Some PyNone" by simp_all
  }
  {
    assume present: "key \<in> fst ` set kwargs"
    from set_kwargs_present[OF s1 present] obtain v where
      v: "(key, v) \<in> set kwargs" "map_of (attrs self1) key = Some v" by auto
    have "getattr_cls (mro \<lparr>mro = c # bases, attrs = [], node = None\<rparr>) key = Some (Prop p)"
      using own by simp
    from set_kwargs_validated[OF s1 v(1) public this] have val: "validate p v = None" .
    from present keys1 have "key \<in> fst ` set (attrs self1)" by simp
    from set_missing_present[OF s2 this] v(2) final have "map_of (attrs self) key = Some v" by simp
    with v(1) val
    show "\<exists>v. (key, v) \<in> set kwargs \<and> validate p v = None \<and> map_of (attrs self) key = Some v"
      by blast
  }
next
  assume req: "required p \<and> key \<notin> fst ` set kwargs"
  show "\<exists>e. init (c # bases) kwargs = Inl e"
  proof (cases "set_kwargs \<lparr>mro = c # bases, attrs = [], node = None\<rparr> kwargs")
    case (Inl e)
    then show ?thesis by (simp add: init_def)
  next
    case (Inr self1)
    from set_kwargs_keys[OF Inr] req have "key \<notin> fst ` set (attrs self1)" by simp
    from set_missing_required[OF own _ public this] req obtain e where
      "set_missing (cdict c) self1 = Inl e" by auto
    with Inr show ?thesis by (simp add: init_def)
  qed
next
  fix self1
  assume req: "required p \<and> key \<notin> fst ` set kwargs"
    and s1: "set_kwargs \<lparr>mro = c # bases, attrs = [], node = None\<rparr> kwargs = Inr self1"
  have keys1: "fst ` set (attrs self1) = fst ` set kwargs"
    using set_kwargs_keys[OF s1] by simp
  with req have "key \<notin> fst ` set (attrs self1)" by simp
  from set_missing_required[OF own _ public this] req obtain e where
    e: "set_missing (cdict c) self1 = Inl e" by auto
  from set_missing_fails[OF e] keys1 s1 e
  show "\<exists>k q. init (c # bases) kwargs = Inl (RequiredProperty k) \<and> (k, Prop q) \<in> set (cdict c)
          \<and> required q \<and> \<not> startswith_underscore k \<and> k \<notin> fst ` set kwargs"
    by (auto simp: init_def)
qed

text \<open>
  The theorem at \<^verbatim>\<open>Person\<close>: \<^verbatim>\<open>Person(name='alice')\<close> sets \<^verbatim>\<open>age\<close> to the null
  marker, and \<^verbatim>\<open>Person(age=30)\<close> fails naming \<^verbatim>\<open>name\<close>.
\<close>

theorem init_own_public_properties_witness:
  "(\<exists>self. init Person [(''name'', PyStr ''alice'')] = Inr self
      \<and> map_of (attrs self) ''age'' = Some PyNone
      \<and> map_of (attrs self) ''name'' = Some (PyStr ''alice''))
   \<and> init Person [(''age'', PyInt 30)] = Inl (RequiredProperty ''name'')"
proof -
  let ?c = "StructuredNodeMeta ''Person'' [(''name'', Prop name_property), (''age'', Prop age_property)]"
  have P: "Person = ?c # [StructuredNode_class]" by (simp add: Person_def)
  have dict: "distinct (map fst (cdict ?c))" by (simp add: StructuredNodeMeta_def)
  have own_age: "map_of (cdict ?c) ''age'' = Some (Prop age_property)"
    by (simp add: StructuredNodeMeta_def)
  have own_name: "map_of (cdict ?c) ''name'' = Some (Prop name_property)"
    by (simp add: StructuredNodeMeta_def)
  have pub: "\<not> startswith_underscore ''age''" "\<not> startswith_underscore ''name''" by simp_all
  have ev: "init (?c # [StructuredNode_class]) [(''name'', PyStr ''alice'')] =
     Inr \<lparr>mro = Person, attrs = [(''name'', PyStr ''alice''), (''age'', PyNone)], node = None\<rparr>"
    using init_alice_only_name by (simp add: P)
  have age: "map_of (attrs \<lparr>mro = Person, attrs = [(''name'', PyStr ''alice''), (''age'', PyNone)],
      node = None\<rparr>) ''age'' = Some PyNone"
    using init_own_public_properties[OF own_age pub(1) dict,
        where bases = "[StructuredNode_class]" and kwargs = "[(''name'', PyStr ''alice'')]"] ev
    by simp
  have sk: "set_kwargs \<lparr>mro = ?c # [StructuredNode_class], attrs = [], node = None\<rparr> [(''age'', PyInt 30)]
      = Inr \<lparr>mro = ?c # [StructuredNode_class], attrs = [(''age'', PyInt 30)], node = None\<rparr>"
    by (simp add: example_defs setattr_node_def get_property_def object_setattr_def)
  have "\<exists>k q. init (?c # [StructuredNode_class]) [(''age'', PyInt 30)] = Inl (RequiredProperty k)
      \<and> (k, Prop q) \<in> set (cdict ?c) \<and> required q \<and> \<not> startswith_underscore k
      \<and> k \<notin> fst ` set [(''age'', PyInt 30)]"
    using init_own_public_properties[OF own_name pub(2) dict,
        where bases = "[StructuredNode_class]" and kwargs = "[(''age'', PyInt 30)]"] sk
    by (simp add: name_property_def)
  then obtain k q where kq: "init Person [(''age'', PyInt 30)] = Inl (RequiredProperty k)"
    "(k, Prop q) \<in> set (cdict ?c)" "required q" "k \<notin> fst ` set [(''age'', PyInt 30)]"
    unfolding P by blast
  from kq(2,3,4) have "k = ''name''"
    by (auto simp: StructuredNodeMeta_def age_property_def split: if_splits)
  with kq(1) age ev P show ?thesis by simp
qed

text \<open>
  Claim C5 as stated fails: the loop of lines 124-131 skips every private name, so a
  required property declared as \<^verbatim>\<open>_secret\<close> and not supplied neither fails the
  construction nor is set to the null marker.
\<close>

theorem init_private_required_counterexample:
  "getattr_cls Token ''_secret'' = Some (Prop name_property) \<and> required name_property
   \<and> ''_secret'' \<notin> fst ` set ([] :: props)
   \<and> (\<exists>self. init Token [] = Inr self \<and> map_of (attrs self) ''_secret'' = None)"
  by (simp add: init_def Token_def example_defs)




section \<open>Invariance lemmas\<close>

lemma same_graph_refl: "same_graph s s" by (simp add: same_graph_def)

lemma same_graph_trans: "same_graph s t \<Longrightarrow> same_graph t u \<Longrightarrow> same_graph s u"
  by (simp add: same_graph_def)

lemma get_or_create_index_graph:
  "get_or_create_index name s = (i, s1) \<Longrightarrow> same_graph s s1 \<and> i = name"
  by (cases "name \<in> fst ` set (indexes s)")
     (auto simp: get_or_create_index_def log_call_def same_graph_def)

lemma class_index_graph: "class_index cls s = (r, s1) \<Longrightarrow> same_graph s s1"
  by (auto simp: class_index_def private_index_def same_graph_refl
      split: option.splits attr.splits prod.splits dest: get_or_create_index_graph)

lemma batch_step_graph:
  assumes "batch_step cls n key v batch s = (r, s1)"
  shows "same_graph s s1"
proof -
  have ci: "same_graph t (snd (class_index cls t))" for t
    using class_index_graph[of cls t] by (cases "class_index cls t") simp
  have ci2: "same_graph s (snd (class_index cls (snd (class_index cls s))))"
    using same_graph_trans[OF ci ci] .
  from assms show ?thesis
    using ci[of s] ci2 same_graph_refl[of s]
    by (auto simp: batch_step_def split: if_splits sum.splits bool.splits prod.splits error.splits)
qed

lemma fill_batch_graph: "fill_batch cls n ps batch s = (r, s1) \<Longrightarrow> same_graph s s1"
proof (induction ps arbitrary: batch s)
  case Nil then show ?case by (simp add: same_graph_refl)
next
  case (Cons kv ps)
  obtain k v where kv: "kv = (k, v)" by (cases kv)
  obtain r0 s0 where st: "batch_step cls n k v batch s = (r0, s0)" by (cases "batch_step cls n k v batch s")
  note g0 = batch_step_graph[OF st]
  show ?case
  proof (cases r0)
    case (Inl e)
    with Cons.prems kv st g0 show ?thesis by simp
  next
    case (Inr b1)
    with Cons.prems kv st have "fill_batch cls n ps b1 s0 = (r, s1)" by simp
    from same_graph_trans[OF g0 Cons.IH[OF this]] show ?thesis .
  qed
qed

lemma submit_graph: "submit batch s = (r, s1) \<Longrightarrow> same_graph s s1"
  by (auto simp: submit_def log_call_def same_graph_def split: sum.splits prod.splits)

lemma submit_checked_graph: "submit_checked batch s = (r, s1) \<Longrightarrow> same_graph s s1"
  by (auto simp: submit_checked_def split: sum.splits prod.splits error.splits dest: submit_graph)

lemma private_update_index_graph:
  "private_update_index cls n ps s = (r, s1) \<Longrightarrow> same_graph s s1"
proof (induction cls arbitrary: s)
  case Nil then show ?case by (simp add: same_graph_refl)
next
  case (Cons c cs)
  show ?case
  proof (cases "cname c = ''StructuredNode'' \<or> cname c = ''ReadOnlyNode''")
    case True
    with Cons.prems show ?thesis by (auto simp: same_graph_refl)
  next
    case False
    obtain r0 s0 where fb: "fill_batch (c # cs) n ps [] s = (r0, s0)"
      by (cases "fill_batch (c # cs) n ps [] s")
    note g0 = fill_batch_graph[OF fb]
    show ?thesis
    proof (cases r0)
      case (Inl e)
      with Cons.prems False fb g0 show ?thesis by simp
    next
      case (Inr batch)
      obtain r1 s2 where sc: "submit_checked batch s0 = (r1, s2)" by (cases "submit_checked batch s0")
      note g1 = same_graph_trans[OF g0 submit_checked_graph[OF sc]]
      show ?thesis
      proof (cases r1)
        case (Inl e)
        with Cons.prems False fb Inr sc g1 show ?thesis by simp
      next
        case (Inr u)
        with Cons.prems False fb \<open>r0 = Inr batch\<close> sc
        have "private_update_index cs n ps s2 = (r, s1)" by simp
        from same_graph_trans[OF g1 Cons.IH[OF this]] show ?thesis .
      qed
    qed
  qed
qed

section \<open>Search and point lookup\<close>

text \<open>
  Claim C4, at the input where the code departs from it. The name \<^verbatim>\<open>save\<close> resolves on
  \<^verbatim>\<open>Person\<close> to a method, which is not a property descriptor; \<^verbatim>\<open>get_property\<close>
  returns it, and \<^verbatim>\<open>search(save=1)\<close> fails on line 48 with \<^verbatim>\<open>AttributeError\<close>, not
  with \<^verbatim>\<open>NoSuchProperty\<close>. No remote call is made: the store is unchanged.
\<close>

theorem search_method_name_raises_AttributeError:
  "getattr_cls Person ''save'' = Some Method
   \<and> search Person ''Person'' None [(''save'', PyInt 1)] empty_store
       = (Inl (AttributeError ''is_indexed''), empty_store)"
  by (simp add: search_def get_property_def example_defs)




lemma build_nodes_handles:
  "build_nodes cls d = Inr found \<Longrightarrow> map node found = map (\<lambda>hp. Some (fst hp)) d"
proof (induction d arbitrary: found)
  case Nil then show ?case by simp
next
  case (Cons hp d)
  obtain h ps where hp: "hp = (h, ps)" by (cases hp)
  from Cons.prems hp obtain neonode built where
    b: "init cls ps = Inr neonode" "build_nodes cls d = Inr built"
       "found = neonode\<lparr>node := Some h\<rparr> # built"
    by (auto split: sum.splits)
  from Cons.IH[OF b(2)] b(3) hp show ?case by simp
qed

lemma build_nodes_sound:
  "build_nodes cls d = Inr found \<Longrightarrow> inst \<in> set found \<Longrightarrow>
     \<exists>h ps self. (h, ps) \<in> set d \<and> init cls ps = Inr self \<and> inst = self\<lparr>node := Some h\<rparr>"
proof (induction d arbitrary: found)
  case Nil then show ?case by simp
next
  case (Cons hp d)
  obtain h ps where hp: "hp = (h, ps)" by (cases hp)
  from Cons.prems hp obtain neonode built where
    b: "init cls ps = Inr neonode" "build_nodes cls d = Inr built"
       "found = neonode\<lparr>node := Some h\<rparr> # built"
    by (auto split: sum.splits)
  show ?case
  proof (cases "inst \<in> set built")
    case True
    from Cons.IH[OF b(2) True] show ?thesis by auto
  next
    case False
    with Cons.prems(2) b(3) have "inst = neonode\<lparr>node := Some h\<rparr>" by simp
    with b(1) hp show ?thesis by auto
  qed
qed

lemma lookup_all_sound:
  "lookup_all ns hs = Inr pss \<Longrightarrow>
     length pss = length hs \<and> (\<forall>(h, ps) \<in> set (zip hs pss). map_of ns h = Some ps)"
proof (induction hs arbitrary: pss)
  case Nil then show ?case by simp
next
  case (Cons h hs)
  from Cons.prems obtain p rest where
    b: "map_of ns h = Some p" "lookup_all ns hs = Inr rest" "pss = p # rest"
    by (auto split: option.splits sum.splits)
  from Cons.IH[OF b(2)] b(1,3) show ?case by simp
qed

lemma dict_fold:
  assumes "distinct (map fst d0)"
  shows "distinct (map fst (foldl (\<lambda>d (h, p). AList.update h p d) d0 xs))
       \<and> fst ` set (foldl (\<lambda>d (h, p). AList.update h p d) d0 xs) = fst ` set d0 \<union> fst ` set xs
       \<and> (\<forall>h p. map_of (foldl (\<lambda>d (h, p). AList.update h p d) d0 xs) h = Some p
             \<longrightarrow> map_of d0 h = Some p \<or> (h, p) \<in> set xs)"
  using assms
proof (induction xs arbitrary: d0)
  case Nil then show ?case by simp
next
  case (Cons x xs)
  obtain k v where x: "x = (k, v)" by (cases x)
  have d1: "distinct (map fst (AList.update k v d0))" using Cons.prems by (rule distinct_update)
  from Cons.IH[OF d1] x show ?case
    by (auto simp: dom_update update_conv' split: if_splits)
qed

lemma dict_zip_sound:
  assumes "length pss = length hs"
  shows "distinct (map fst (dict_zip hs pss))" and "fst ` set (dict_zip hs pss) = set hs"
    and "(h, p) \<in> set (dict_zip hs pss) \<Longrightarrow> (h, p) \<in> set (zip hs pss)"
proof -
  note f = dict_fold[of "[]" "zip hs pss", simplified, folded dict_zip_def]
  from f show "distinct (map fst (dict_zip hs pss))" by simp
  from f assms show "fst ` set (dict_zip hs pss) = set hs"
    by (simp add: map_fst_zip flip: set_map)
  assume "(h, p) \<in> set (dict_zip hs pss)"
  with f have "map_of (dict_zip hs pss) h = Some p" by simp
  with f show "(h, p) \<in> set (zip hs pss)" by simp
qed

lemma entries_of_get_or_create_index:
  "entries_of (indexes (snd (get_or_create_index name s))) idx = entries_of (indexes s) idx"
proof (cases "name \<in> fst ` set (indexes s)")
  case True
  then show ?thesis by (simp add: get_or_create_index_def log_call_def)
next
  case False
  then have "map_of (indexes s) name = None" by (simp add: map_of_eq_None_iff)
  with False show ?thesis
    by (simp add: get_or_create_index_def log_call_def entries_of_def map_add_def[symmetric]
        split: option.splits) (auto simp: map_add_def split: option.splits)
qed

text \<open>
  Claim C9, as amended. A successful search returns one instance per distinct matched
  node, and each is what the constructor \<^verbatim>\<open>__init__\<close> builds from the stored properties
  of that node (so the required-property and per-value checks did apply and passed), with
  its store handle then set to the node.
\<close>

theorem search_builds_through_constructor:
  assumes "search node_class name query kwargs s = (Inr found, s1)"
  shows "\<exists>q. (query = Some q \<or> (query = None \<and> reduce_and (map (\<lambda>(k, v). Term k v) kwargs) = Inr q))
       \<and> node ` set found = Some ` set (matches (entries_of (indexes s) name) q)
       \<and> distinct (map node found)
       \<and> (\<forall>inst \<in> set found. \<exists>h ps self.
             h \<in> set (matches (entries_of (indexes s) name) q) \<and> map_of (nodes s) h = Some ps
             \<and> init node_class ps = Inr self \<and> inst = self\<lparr>node := Some h\<rparr>)"
proof -
  from assms obtain q where
    q: "(case query of Some q \<Rightarrow> Inr q | None \<Rightarrow> reduce_and (map (\<lambda>(k, v). Term k v) kwargs)) = Inr q"
    by (auto simp: search_def split: sum.splits)
  then have q': "query = Some q \<or> (query = None \<and> reduce_and (map (\<lambda>(k, v). Term k v) kwargs) = Inr q)"
    by (cases query) auto
  define t where "t = snd (get_or_create_index name s)"
  define results where "results = matches (entries_of (indexes s) name) q"
  have goci: "get_or_create_index name s = (name, t)"
    by (simp add: t_def get_or_create_index_def)
  have res: "index_query name q t = (results, log_call (IndexQuery name q) t)"
    unfolding index_query_def results_def t_def entries_of_get_or_create_index ..
  have nodes_t: "nodes (log_call (IndexQuery name q) t) = nodes s"
    using get_or_create_index_graph[OF goci] by (simp add: log_call_def same_graph_def)
  from assms q goci res obtain pss where
    look: "lookup_all (nodes s) results = Inr pss"
    and built: "build_nodes node_class (dict_zip results pss) = Inr found"
    by (auto simp: search_def private_index_def get_properties_def nodes_t
        split: sum.splits prod.splits)
  note ls = lookup_all_sound[OF look]
  note dz = dict_zip_sound[OF ls[THEN conjunct1]]
  have handles: "map node found = map (\<lambda>hp. Some (fst hp)) (dict_zip results pss)"
    by (rule build_nodes_handles[OF built])
  have "node ` set found = set (map node found)" by simp
  also have "\<dots> = Some ` fst ` set (dict_zip results pss)"
    unfolding handles by (simp add: image_image)
  finally have img: "node ` set found = Some ` set results" using dz(2) by simp
  have "map node found = map Some (map fst (dict_zip results pss))"
    unfolding handles by simp
  then have dist: "distinct (map node found)"
    using dz(1) by (simp add: distinct_map del: map_map)
  have each: "\<forall>inst \<in> set found. \<exists>h ps self.
             h \<in> set results \<and> map_of (nodes s) h = Some ps
             \<and> init node_class ps = Inr self \<and> inst = self\<lparr>node := Some h\<rparr>"
  proof
    fix inst assume "inst \<in> set found"
    from build_nodes_sound[OF built this] obtain h ps self where
      b: "(h, ps) \<in> set (dict_zip results pss)" "init node_class ps = Inr self"
         "inst = self\<lparr>node := Some h\<rparr>" by blast
    from dz(3)[OF b(1)] have z: "(h, ps) \<in> set (zip results pss)" .
    with ls have "map_of (nodes s) h = Some ps" by auto
    moreover from z have "h \<in> set results" by (rule set_zip_leftD)
    ultimately show "\<exists>h ps self. h \<in> set results \<and> map_of (nodes s) h = Some ps
             \<and> init node_class ps = Inr self \<and> inst = self\<lparr>node := Some h\<rparr>"
      using b(2,3) by blast
  qed
  from q' img dist each show ?thesis unfolding results_def by blast
qed

text \<open>The theorem at the search for alice by name.\<close>

theorem search_builds_through_constructor_witness:
  "\<exists>found s1. search Person ''Person'' None [(''name'', PyStr ''alice'')] alice_store = (Inr found, s1)
     \<and> node ` set found = {Some 1}
     \<and> (\<forall>inst \<in> set found. \<exists>self. init Person [(''name'', PyStr ''alice''), (''age'', PyInt 30)] = Inr self
            \<and> inst = self\<lparr>node := Some 1\<rparr>)"
proof -
  obtain x s1 where a: "search Person ''Person'' None [(''name'', PyStr ''alice'')] alice_store = (Inr [x], s1)"
    by (rule search_alice_result)
  have m: "matches (entries_of (indexes alice_store) ''Person'') (Term ''name'' (PyStr ''alice'')) = [1]"
    by (simp add: entries_of_def alice_store_def)
  have n1: "map_of (nodes alice_store) 1 = Some [(''name'', PyStr ''alice''), (''age'', PyInt 30)]"
    by (simp add: alice_store_def)
  from search_builds_through_constructor[OF a] obtain q where
    q: "reduce_and (map (\<lambda>(k, v). Term k v) [(''name'', PyStr ''alice'')]) = Inr q"
    and img: "node ` set [x] = Some ` set (matches (entries_of (indexes alice_store) ''Person'') q)"
    and each: "\<forall>inst \<in> set [x]. \<exists>h ps self.
             h \<in> set (matches (entries_of (indexes alice_store) ''Person'') q)
             \<and> map_of (nodes alice_store) h = Some ps
             \<and> init Person ps = Inr self \<and> inst = self\<lparr>node := Some h\<rparr>"
    by blast
  from q have qeq: "q = Term ''name'' (PyStr ''alice'')" by simp
  note img1 = img[unfolded qeq m]
  note each1 = each[unfolded qeq m]
  from each1 obtain h ps self where hps: "h \<in> set [1::nat]" "map_of (nodes alice_store) h = Some ps"
    "init Person ps = Inr self" "x = self\<lparr>node := Some h\<rparr>" by auto
  from hps(1) have h1: "h = 1" by simp
  from hps(2) n1 h1 have "ps = [(''name'', PyStr ''alice''), (''age'', PyInt 30)]" by simp
  with hps(3,4) h1 have built: "init Person [(''name'', PyStr ''alice''), (''age'', PyInt 30)] = Inr self"
    "x = self\<lparr>node := Some 1\<rparr>" by simp_all
  show ?thesis
  proof (intro exI conjI)
    show "search Person ''Person'' None [(''name'', PyStr ''alice'')] alice_store = (Inr [x], s1)"
      by (rule a)
    show "node ` set [x] = {Some 1}" using img1 by simp
    show "\<forall>inst \<in> set [x]. \<exists>self. init Person [(''name'', PyStr ''alice''), (''age'', PyInt 30)] = Inr self
            \<and> inst = self\<lparr>node := Some 1\<rparr>"
      using built by simp
  qed
qed

text \<open>
  Claim C9 as stated fails: construction is not bypassed. The node of the legacy store
  matches the query by age and has no name; the constructor raises
  \<^verbatim>\<open>RequiredProperty\<close> and the search fails with it.
\<close>

theorem search_validates_stored_data_counterexample:
  "map_of (nodes legacy_store) 1 = Some [(''age'', PyInt 30)]
   \<and> matches (entries_of (indexes legacy_store) ''Person'') (Term ''age'' (PyInt 30)) = [1]
   \<and> fst (search Person ''Person'' None [(''age'', PyInt 30)] legacy_store)
        = Inl (RequiredProperty ''name'')"
  by (simp add: search_def get_property_def example_defs legacy_store_def store_defs
      init_def setattr_node_def object_setattr_def)

section \<open>Creation, rollback and deletion\<close>












section \<open>Saving\<close>

lemma map_of_map_keyed:
  "map_of (map (\<lambda>(k, v). if k = a then (k, f v) else (k, v)) xs) i
     = (if i = a then map_option f (map_of xs i) else map_of xs i)"
  by (induction xs) auto

lemma entries_of_index_remove:
  "entries_of (indexes (index_remove idx n s)) i
     = (if i = idx then filter (\<lambda>(k, v, h). h \<noteq> n) (entries_of (indexes s) i)
        else entries_of (indexes s) i)"
  by (simp add: index_remove_def log_call_def entries_of_def map_of_map_keyed split: option.splits)

lemma class_index_found:
  "getattr_cls cls ''index'' = Some (IndexManager idx) \<Longrightarrow>
     class_index cls s = (Inr idx, snd (get_or_create_index idx s))"
  by (simp add: class_index_def private_index_def get_or_create_index_def)

lemma set_properties_existing:
  "n \<in> fst ` set (nodes s) \<Longrightarrow>
     set_properties n ps s = (Inr (), log_call (SetProperties n ps) (s\<lparr>nodes := AList.update n ps (nodes s)\<rparr>))"
  by (simp add: set_properties_def)

lemma private_create_success:
  assumes "private_create self ps w = (Inr u, self1, w1)"
  shows "\<exists>n. self1 = self\<lparr>node := Some n\<rparr>"
  using assms
  by (auto simp: private_create_def Let_def split: prod.splits sum.splits)

lemma save_update_path:
  assumes nd: "node self = Some n" and ex: "n \<in> fst ` set (nodes (db w))"
    and im: "getattr_cls (mro self) ''index'' = Some (IndexManager idx)"
  defines "s_mid \<equiv> index_remove idx n (snd (get_or_create_index idx
      (log_call (SetProperties n (properties self))
         ((db w)\<lparr>nodes := AList.update n (properties self) (nodes (db w))\<rparr>))))"
  shows "save self w =
           (case private_update_index (mro self) n (properties self) s_mid of
              (Inl e, s3) \<Rightarrow> (Inl e, self, w\<lparr>db := s3\<rparr>)
            | (Inr u, s3) \<Rightarrow> (Inr self, self, w\<lparr>db := s3\<rparr>))"
    and "nodes s_mid = AList.update n (properties self) (nodes (db w))"
    and "entries_of (indexes s_mid) i
           = (if i = idx then filter (\<lambda>(k, v, h). h \<noteq> n) (entries_of (indexes (db w)) i)
              else entries_of (indexes (db w)) i)"
    and "calls s_mid = calls (db w) @ [SetProperties n (properties self), GetOrCreateIndex idx,
           IndexRemove idx n]"
proof -
  show "save self w =
           (case private_update_index (mro self) n (properties self) s_mid of
              (Inl e, s3) \<Rightarrow> (Inl e, self, w\<lparr>db := s3\<rparr>)
            | (Inr u, s3) \<Rightarrow> (Inr self, self, w\<lparr>db := s3\<rparr>))"
    unfolding save_def s_mid_def
    by (simp add: nd set_properties_existing[OF ex] class_index_found[OF im] split: prod.splits sum.splits)
  show "nodes s_mid = AList.update n (properties self) (nodes (db w))"
    unfolding s_mid_def by (simp add: index_remove_def get_or_create_index_def log_call_def)
  show "entries_of (indexes s_mid) i
           = (if i = idx then filter (\<lambda>(k, v, h). h \<noteq> n) (entries_of (indexes (db w)) i)
              else entries_of (indexes (db w)) i)"
    unfolding s_mid_def entries_of_index_remove entries_of_get_or_create_index
    by (simp add: log_call_def)
  show "calls s_mid = calls (db w) @ [SetProperties n (properties self), GetOrCreateIndex idx,
           IndexRemove idx n]"
    unfolding s_mid_def by (simp add: index_remove_def get_or_create_index_def log_call_def)
qed

text \<open>
  Claim C7. With a store handle \<open>n\<close> (of a node the store holds, for a type whose index
  manager names the index \<open>idx\<close>), \<^verbatim>\<open>save\<close> makes three remote calls and then runs the
  index update in the store \<open>s_mid\<close> they leave: there the node holds exactly the snapshot of
  \<^verbatim>\<open>properties\<close>, the index \<open>idx\<close> has no entry of \<open>n\<close> and keeps every other entry, and
  every other index is untouched. Whatever the index update answers, the node still holds
  the snapshot and the instance is unchanged. Without a handle, \<^verbatim>\<open>save\<close> is the create
  path. Whenever \<^verbatim>\<open>save\<close> returns, it returns the instance itself: the attributes and
  the type it was called on, with a store handle.
\<close>

theorem save_updates_or_creates:
  "(\<forall>n idx. node self = Some n \<and> n \<in> fst ` set (nodes (db w))
        \<and> getattr_cls (mro self) ''index'' = Some (IndexManager idx) \<longrightarrow>
      (\<exists>s_mid.
          map_of (nodes s_mid) n = Some (properties self)
        \<and> (\<forall>k v. (k, v, n) \<notin> set (entries_of (indexes s_mid) idx))
        \<and> (\<forall>k v h. h \<noteq> n \<longrightarrow>
              ((k, v, h) \<in> set (entries_of (indexes s_mid) idx))
                = ((k, v, h) \<in> set (entries_of (indexes (db w)) idx)))
        \<and> (\<forall>other. other \<noteq> idx \<longrightarrow>
              entries_of (indexes s_mid) other = entries_of (indexes (db w)) other)
        \<and> calls s_mid = calls (db w) @ [SetProperties n (properties self), GetOrCreateIndex idx,
              IndexRemove idx n]
        \<and> save self w =
              (case private_update_index (mro self) n (properties self) s_mid of
                 (Inl e, s3) \<Rightarrow> (Inl e, self, w\<lparr>db := s3\<rparr>)
               | (Inr u, s3) \<Rightarrow> (Inr self, self, w\<lparr>db := s3\<rparr>))
        \<and> (\<forall>r self1 w1. save self w = (r, self1, w1) \<longrightarrow>
              map_of (nodes (db w1)) n = Some (properties self) \<and> self1 = self)))
   \<and> (node self = None \<longrightarrow>
        save self w =
          (case private_create self (properties self) w of
             (Inl e, self1, w1) \<Rightarrow> (Inl e, self1, w1)
           | (Inr u, self1, w1) \<Rightarrow> (Inr self1, self1, w1)))
   \<and> (\<forall>x self1 w1. save self w = (Inr x, self1, w1) \<longrightarrow>
        x = self1 \<and> attrs x = attrs self \<and> mro x = mro self \<and> node x \<noteq> None)"
proof (intro conjI allI impI)
  fix n idx
  assume h: "node self = Some n \<and> n \<in> fst ` set (nodes (db w))
        \<and> getattr_cls (mro self) ''index'' = Some (IndexManager idx)"
  define s_mid where "s_mid = index_remove idx n (snd (get_or_create_index idx
      (log_call (SetProperties n (properties self))
         ((db w)\<lparr>nodes := AList.update n (properties self) (nodes (db w))\<rparr>))))"
  note p = save_update_path[of self n w idx, folded s_mid_def]
  from h have nd: "node self = Some n" and ex: "n \<in> fst ` set (nodes (db w))"
    and im: "getattr_cls (mro self) ''index'' = Some (IndexManager idx)" by simp_all
  have nodes_mid: "map_of (nodes s_mid) n = Some (properties self)"
    unfolding p(2)[OF nd ex im] by (simp add: update_conv')
  have own: "entries_of (indexes s_mid) idx
      = filter (\<lambda>(k, v, h). h \<noteq> n) (entries_of (indexes (db w)) idx)"
    using p(3)[OF nd ex im, of idx] by simp
  have final: "map_of (nodes (db w1)) n = Some (properties self) \<and> self1 = self"
    if sv: "save self w = (r, self1, w1)" for r self1 w1
  proof -
    obtain r3 s3 where u: "private_update_index (mro self) n (properties self) s_mid = (r3, s3)"
      by (cases "private_update_index (mro self) n (properties self) s_mid")
    from private_update_index_graph[OF u] nodes_mid
    have n3: "map_of (nodes s3) n = Some (properties self)" by (simp add: same_graph_def)
    from sv p(1)[OF nd ex im] u have "self1 = self" "w1 = w\<lparr>db := s3\<rparr>"
      by (cases r3; simp)+
    with n3 show ?thesis by simp
  qed
  show "\<exists>s_mid.
          map_of (nodes s_mid) n = Some (properties self)
        \<and> (\<forall>k v. (k, v, n) \<notin> set (entries_of (indexes s_mid) idx))
        \<and> (\<forall>k v h. h \<noteq> n \<longrightarrow>
              ((k, v, h) \<in> set (entries_of (indexes s_mid) idx))
                = ((k, v, h) \<in> set (entries_of (indexes (db w)) idx)))
        \<and> (\<forall>other. other \<noteq> idx \<longrightarrow>
              entries_of (indexes s_mid) other = entries_of (indexes (db w)) other)
        \<and> calls s_mid = calls (db w) @ [SetProperties n (properties self), GetOrCreateIndex idx,
              IndexRemove idx n]
        \<and> save self w =
              (case private_update_index (mro self) n (properties self) s_mid of
                 (Inl e, s3) \<Rightarrow> (Inl e, self, w\<lparr>db := s3\<rparr>)
               | (Inr u, s3) \<Rightarrow> (Inr self, self, w\<lparr>db := s3\<rparr>))
        \<and> (\<forall>r self1 w1. save self w = (r, self1, w1) \<longrightarrow>
              map_of (nodes (db w1)) n = Some (properties self) \<and> self1 = self)"
  proof (intro exI[of _ s_mid] conjI allI impI)
    show "map_of (nodes s_mid) n = Some (properties self)" by (rule nodes_mid)
    show "(k, v, n) \<notin> set (entries_of (indexes s_mid) idx)" for k v
      unfolding own by simp
    show "((k, v, h) \<in> set (entries_of (indexes s_mid) idx))
                = ((k, v, h) \<in> set (entries_of (indexes (db w)) idx))" if "h \<noteq> n" for k v h
      unfolding own using that by simp
    show "entries_of (indexes s_mid) other = entries_of (indexes (db w)) other"
      if "other \<noteq> idx" for other
      using p(3)[OF nd ex im, of other] that by simp
    show "calls s_mid = calls (db w) @ [SetProperties n (properties self), GetOrCreateIndex idx,
              IndexRemove idx n]"
      by (rule p(4)[OF nd ex im])
    show "save self w =
              (case private_update_index (mro self) n (properties self) s_mid of
                 (Inl e, s3) \<Rightarrow> (Inl e, self, w\<lparr>db := s3\<rparr>)
               | (Inr u, s3) \<Rightarrow> (Inr self, self, w\<lparr>db := s3\<rparr>))"
      by (rule p(1)[OF nd ex im])
    show "map_of (nodes (db w1)) n = Some (properties self)" if "save self w = (r, self1, w1)"
      for r self1 w1 using final[OF that] by simp
    show "self1 = self" if "save self w = (r, self1, w1)"
      for r self1 w1 using final[OF that] by simp
  qed
next
  assume "node self = None"
  then show "save self w =
          (case private_create self (properties self) w of
             (Inl e, self1, w1) \<Rightarrow> (Inl e, self1, w1)
           | (Inr u, self1, w1) \<Rightarrow> (Inr self1, self1, w1))"
    by (simp add: save_def)
next
  fix x self1 w1
  assume sv: "save self w = (Inr x, self1, w1)"
  have "x = self1 \<and> attrs x = attrs self \<and> mro x = mro self \<and> node x \<noteq> None"
  proof (cases "node self")
    case None
    with sv obtain u where "private_create self (properties self) w = (Inr u, self1, w1)" "x = self1"
      by (auto simp: save_def split: prod.splits sum.splits)
    with private_create_success[OF this(1)] show ?thesis by auto
  next
    case (Some n)
    with sv have "x = self" "self1 = self"
      by (auto simp: save_def split: prod.splits sum.splits)
    with Some show ?thesis by simp
  qed
  then show "x = self1" "attrs x = attrs self" "mro x = mro self" "node x \<noteq> None" by blast+
qed

text \<open>
  The theorem at the persisted alice with a new age: node 1 holds the new snapshot and the
  index of \<^verbatim>\<open>Person\<close> holds the new entries of node 1 only.
\<close>

lemma save_alice_older_eval:
  "(case save alice_older alice_world of
      (Inr x, self1, w1) \<Rightarrow>
         entries_of (indexes (db w1)) ''Person'' = [(''name'', PyStr ''alice'', 1), (''age'', PyInt 31, 1)]
    | _ \<Rightarrow> False)"
  by code_simp

theorem save_updates_or_creates_witness:
  "\<exists>x self1 w1. save alice_older alice_world = (Inr x, self1, w1)
     \<and> map_of (nodes (db w1)) 1 = Some [(''name'', PyStr ''alice''), (''age'', PyInt 31)]
     \<and> entries_of (indexes (db w1)) ''Person'' = [(''name'', PyStr ''alice'', 1), (''age'', PyInt 31, 1)]
     \<and> self1 = alice_older \<and> x = self1"
proof -
  obtain r self1 w1 where sv: "save alice_older alice_world = (r, self1, w1)"
    by (cases "save alice_older alice_world")
  with save_alice_older_eval obtain x where r: "r = Inr x"
    and ents: "entries_of (indexes (db w1)) ''Person'' = [(''name'', PyStr ''alice'', 1), (''age'', PyInt 31, 1)]"
    by (auto split: sum.splits)
  have pre: "node alice_older = Some 1 \<and> 1 \<in> fst ` set (nodes (db alice_world))
        \<and> getattr_cls (mro alice_older) ''index'' = Some (IndexManager ''Person'')"
    by (simp add: alice_older_def alice_world_def alice_store_def example_defs)
  have props: "properties alice_older = [(''name'', PyStr ''alice''), (''age'', PyInt 31)]"
    by (simp add: properties_def alice_older_def)
  note th = save_updates_or_creates[of alice_older alice_world]
  from th[THEN conjunct1, rule_format, OF pre] obtain s_mid where
    fin: "\<forall>r self1 w1. save alice_older alice_world = (r, self1, w1) \<longrightarrow>
              map_of (nodes (db w1)) 1 = Some (properties alice_older) \<and> self1 = alice_older"
    by blast
  from fin[rule_format, OF sv] props
  have a: "map_of (nodes (db w1)) 1 = Some [(''name'', PyStr ''alice''), (''age'', PyInt 31)]"
    "self1 = alice_older" by simp_all
  from th[THEN conjunct2, THEN conjunct2, rule_format, OF sv[unfolded r]] have b: "x = self1" by simp
  from sv r a b ents show ?thesis by simp
qed

section \<open>The index update\<close>

lemma meta_has_index_manager:
  "\<not> is_base (StructuredNodeMeta nm dct) \<Longrightarrow> has_index_manager (StructuredNodeMeta nm dct)"
  by (simp add: is_base_def has_index_manager_def StructuredNodeMeta_def Let_def update_conv')



























section \<open>The category registry is memoized\<close>

lemma category_factory_cached:
  "map_of (cache w) (name_of cls) = Some c \<Longrightarrow> category_factory cls w = (c, w)"
  by (simp add: category_factory_def)

lemma category_factory_first:
  assumes "map_of (cache w) (name_of cls) = None"
  shows "calls (db (snd (category_factory cls w))) = calls (db w) @
           [GetOrCreateIndex ''Category'', IndexGetOrCreate ''Category'' ''category'' (PyStr (name_of cls))]"
    and "map_of (cache (snd (category_factory cls w))) (name_of cls) = Some (fst (category_factory cls w))"
    and "\<And>nm. map_of (cache w) nm \<noteq> None \<Longrightarrow> map_of (cache (snd (category_factory cls w))) nm \<noteq> None"
    and "\<And>nm. nm \<noteq> name_of cls \<Longrightarrow>
           category_nodes (db (snd (category_factory cls w))) nm = category_nodes (db w) nm"
    and "length (category_nodes (db (snd (category_factory cls w))) (name_of cls))
           \<le> Suc (length (category_nodes (db w) (name_of cls)))"
  using assms
  by (auto simp: category_factory_def Let_def get_or_create_index_def index_get_or_create_def
      log_call_def category_nodes_def update_conv' split: prod.splits list.splits)

lemma category_factory_idem:
  "category_factory cls (snd (category_factory cls w)) = category_factory cls w"
proof (cases "map_of (cache w) (name_of cls)")
  case (Some c)
  then show ?thesis by (simp add: category_factory_cached)
next
  case None
  from category_factory_first(2)[OF None]
  have "category_factory cls (snd (category_factory cls w))
      = (fst (category_factory cls w), snd (category_factory cls w))"
    by (rule category_factory_cached)
  then show ?thesis by simp
qed

lemma category_calls_bound:
  "length (category_nodes (db (category_calls clss w)) nm)
     \<le> length (category_nodes (db w) nm) + (if map_of (cache w) nm = None then 1 else 0)"
proof (induction clss arbitrary: w)
  case Nil then show ?case by simp
next
  case (Cons cls clss)
  let ?w1 = "snd (category_factory cls w)"
  show ?case
  proof (cases "map_of (cache w) (name_of cls)")
    case (Some c)
    then have "?w1 = w" by (simp add: category_factory_cached)
    with Cons.IH[of w] show ?thesis by simp
  next
    case None
    note f = category_factory_first[OF None]
    show ?thesis
    proof (cases "nm = name_of cls")
      case True
      with f(2) have "map_of (cache ?w1) nm \<noteq> None" by simp
      with Cons.IH[of ?w1] have "length (category_nodes (db (category_calls clss ?w1)) nm)
          \<le> length (category_nodes (db ?w1) nm)" by simp
      also have "\<dots> \<le> Suc (length (category_nodes (db w) nm))" using f(5) True by simp
      finally show ?thesis using None True by simp
    next
      case False
      have same: "category_nodes (db ?w1) nm = category_nodes (db w) nm" by (rule f(4)[OF False])
      show ?thesis
      proof (cases "map_of (cache w) nm")
        case None
        with Cons.IH[of ?w1] same show ?thesis by (simp split: if_splits)
      next
        case (Some c)
        with f(3)[of nm] have "map_of (cache ?w1) nm \<noteq> None" by simp
        with Cons.IH[of ?w1] same Some show ?thesis by simp
      qed
    qed
  qed
qed

text \<open>
  Claim C8. A second lookup for the same type answers as the first and changes nothing,
  neither in the cache nor in the store (no remote call). A lookup for a cached name
  returns the cached category and leaves the process as it is; the first lookup for a name
  makes the two remote calls of the get-or-create and caches the category it returns. Over
  any run of lookups, the number of nodes that carry the category of a name grows by one at
  most.
\<close>

theorem category_factory_memoized:
  "category_factory cls (snd (category_factory cls w)) = category_factory cls w
   \<and> (\<forall>c. map_of (cache w) (name_of cls) = Some c \<longrightarrow> category_factory cls w = (c, w))
   \<and> (map_of (cache w) (name_of cls) = None \<longrightarrow>
        calls (db (snd (category_factory cls w))) = calls (db w) @
          [GetOrCreateIndex ''Category'', IndexGetOrCreate ''Category'' ''category'' (PyStr (name_of cls))]
        \<and> map_of (cache (snd (category_factory cls w))) (name_of cls) = Some (fst (category_factory cls w)))
   \<and> length (category_nodes (db (category_calls clss w)) nm) \<le> Suc (length (category_nodes (db w) nm))"
proof (intro conjI allI impI)
  show "category_factory cls (snd (category_factory cls w)) = category_factory cls w"
    by (rule category_factory_idem)
  show "category_factory cls w = (c, w)" if "map_of (cache w) (name_of cls) = Some c" for c
    using that by (rule category_factory_cached)
  show "calls (db (snd (category_factory cls w))) = calls (db w) @
          [GetOrCreateIndex ''Category'', IndexGetOrCreate ''Category'' ''category'' (PyStr (name_of cls))]"
    if "map_of (cache w) (name_of cls) = None" using that by (rule category_factory_first(1))
  show "map_of (cache (snd (category_factory cls w))) (name_of cls) = Some (fst (category_factory cls w))"
    if "map_of (cache w) (name_of cls) = None" using that by (rule category_factory_first(2))
  show "length (category_nodes (db (category_calls clss w)) nm) \<le> Suc (length (category_nodes (db w) nm))"
    using category_calls_bound[of clss w nm] by (simp split: if_splits)
qed

text \<open>The theorem at \<^verbatim>\<open>Person\<close> in the empty process.\<close>

lemma category_Person_eval:
  "fst (category_factory Person empty_world) = \<lparr>cat_name = ''Person'', cat_node = 0, cat_instance = ''PERSON''\<rparr>"
  by (simp add: category_factory_def Let_def get_or_create_index_def index_get_or_create_def
      log_call_def entries_of_def empty_world_def empty_store_def name_of_Person upper_Person add_entry_def)

theorem category_factory_memoized_witness:
  "\<exists>c w1. category_factory Person empty_world = (c, w1) \<and> category_factory Person w1 = (c, w1)
     \<and> cat_node c = 0
     \<and> calls (db w1) = [GetOrCreateIndex ''Category'', IndexGetOrCreate ''Category'' ''category'' (PyStr ''Person'')]
     \<and> length (category_nodes (db (category_calls [Person, Person, Person] empty_world)) ''Person'') \<le> 1"
proof -
  have none: "map_of (cache empty_world) (name_of Person) = None" by (simp add: empty_world_def)
  note th = category_factory_memoized[of Person empty_world "[Person, Person, Person]" "''Person''"]
  from th[THEN conjunct1]
  have idem: "category_factory Person (snd (category_factory Person empty_world))
      = (fst (category_factory Person empty_world), snd (category_factory Person empty_world))"
    by simp
  from th[THEN conjunct2, THEN conjunct2, THEN conjunct1, rule_format, OF none]
  have log: "calls (db (snd (category_factory Person empty_world)))
      = [GetOrCreateIndex ''Category'', IndexGetOrCreate ''Category'' ''category'' (PyStr ''Person'')]"
    by (simp add: empty_world_def empty_store_def name_of_Person)
  from th[THEN conjunct2, THEN conjunct2, THEN conjunct2]
  have bound: "length (category_nodes (db (category_calls [Person, Person, Person] empty_world)) ''Person'') \<le> 1"
    by (simp add: category_nodes_def empty_world_def empty_store_def)
  show ?thesis
  proof (intro exI conjI)
    show "category_factory Person empty_world
        = (fst (category_factory Person empty_world), snd (category_factory Person empty_world))"
      by simp
    show "category_factory Person (snd (category_factory Person empty_world))
      = (fst (category_factory Person empty_world), snd (category_factory Person empty_world))"
      by (rule idem)
    show "cat_node (fst (category_factory Person empty_world)) = 0"
      by (simp add: category_Person_eval)
    show "calls (db (snd (category_factory Person empty_world)))
      = [GetOrCreateIndex ''Category'', IndexGetOrCreate ''Category'' ''category'' (PyStr ''Person'')]"
      by (rule log)
    show "length (category_nodes (db (category_calls [Person, Person, Person] empty_world)) ''Person'') \<le> 1"
      by (rule bound)
  qed
qed

end
